theory Spec2Isabelle
  imports Main
begin

section \<open>JavaScript values, completions and promises\<close>

text \<open>
  The harness (\<^verbatim>\<open>src/__test__.js\<close>), the repository (\<^verbatim>\<open>src/items-data.js\<close>), the
  seed and the test suite are embedded over a model of what they run on: promises,
  knex transactions on PostgreSQL, and the mocha runner. The values the harness meets
  as errors and rejection reasons are \<open>jsval\<close>: an error object or \<^verbatim>\<open>undefined\<close>, none
  of them a thenable.
\<close>

datatype jsval = Undefined | Error string

text \<open>How a call ends: it returns a value or throws. For an awaited call, it resolves or rejects.\<close>

datatype ('a, 'e) ended = Returns 'a | Throws 'e

type_synonym 'a completion = "('a, jsval) ended"

text \<open>
  A promise over values of any kind \<open>'v\<close>: its state, and the rejection handlers
  attached to it with \<^verbatim>\<open>.catch\<close>.
\<close>

datatype 'v settle = Pending | Fulfilled 'v | Rejected 'v

record 'v promise =
  state :: "'v settle"
  handlers :: "('v \<Rightarrow> ('v, 'v) ended) list"

text \<open>
  The promise a \<^verbatim>\<open>.catch(h)\<close> returns has the state \<open>caught resolve s h\<close> of the state
  \<open>s\<close> of the promise it was called on, now and after every later settlement. It is
  resolved with what the promise fulfilled with or with what the handler returned, and
  \<open>resolve\<close> is the promise resolution procedure: the state a promise resolved with a
  value ends in. That is fulfilled with the value, unless the value is a thenable: then
  the promise adopts the thenable's state, and can reject.
\<close>

fun caught :: "('v \<Rightarrow> 'v settle) \<Rightarrow> 'v settle \<Rightarrow> ('v \<Rightarrow> ('v, 'v) ended) \<Rightarrow> 'v settle" where
  "caught resolve Pending h = Pending"
| "caught resolve (Fulfilled v) h = resolve v"
| "caught resolve (Rejected e) h = (case h e of Returns v \<Rightarrow> resolve v | Throws x \<Rightarrow> Rejected x)"

text \<open>
  \<^verbatim>\<open>promise.catch(h)\<close>: the promise with \<open>h\<close> attached, and the promise returned.
\<close>

definition catch ::
  "('v \<Rightarrow> 'v settle) \<Rightarrow> 'v promise \<Rightarrow> ('v \<Rightarrow> ('v, 'v) ended) \<Rightarrow> 'v promise \<times> 'v promise" where
  "catch resolve p h =
     (p\<lparr>handlers := handlers p @ [h]\<rparr>, \<lparr>state = caught resolve (state p) h, handlers = []\<rparr>)"

text \<open>\<^verbatim>\<open>const rejected = promise => promise.catch(err => err)\<close>\<close>

definition rejected :: "('v \<Rightarrow> 'v settle) \<Rightarrow> 'v promise \<Rightarrow> 'v promise \<times> 'v promise" where
  "rejected resolve promise = catch resolve promise (\<lambda>err. Returns err)"

text \<open>
  Values with thenables among them: a plain value, or a thenable that ends in a state,
  and the resolution procedure for them.
\<close>

datatype tval = Plain jsval | Thenable "jsval settle"

fun settles :: "tval \<Rightarrow> tval settle" where
  "settles (Plain v) = Fulfilled (Plain v)"
| "settles (Thenable Pending) = Pending"
| "settles (Thenable (Fulfilled v)) = Fulfilled (Plain v)"
| "settles (Thenable (Rejected e)) = Rejected (Plain e)"

text \<open>
  The rejections the process reports as unhandled, for a promise of the harness and the
  promises its handlers produced: a rejected promise nothing was attached to. No value
  of the harness is a thenable: resolving with one fulfills.
\<close>

definition unhandled :: "jsval promise \<Rightarrow> jsval list" where
  "unhandled p =
     (case state p of
        Rejected e \<Rightarrow>
          if handlers p = [] then [e]
          else concat (map (\<lambda>h. case caught Fulfilled (Rejected e) h of Rejected x \<Rightarrow> [x] | _ \<Rightarrow> [])
                           (handlers p))
      | _ \<Rightarrow> [])"

section \<open>The items table\<close>

text \<open>
  The migration creates \<^verbatim>\<open>items\<close> with an auto-incrementing primary key \<^verbatim>\<open>id\<close>, a unique,
  not-null \<^verbatim>\<open>sku\<close>, and nullable \<^verbatim>\<open>mpn\<close> and \<^verbatim>\<open>description\<close>.
\<close>

record item =
  item_id :: int
  sku :: string
  mpn :: "string option"
  description :: "string option"

text \<open>
  A property of the object given to insert or update: left out, \<^verbatim>\<open>null\<close>, or a value.
\<close>

datatype 'a col = Absent | Null | Val 'a

record props =
  p_id :: "int col"
  p_sku :: "string col"
  p_mpn :: "string col"
  p_description :: "string col"

text \<open>
  What the statements of one transaction work on: its view of the table, the identity
  sequence of \<^verbatim>\<open>id\<close> (the next value it hands out), and whether a statement has
  failed, after which PostgreSQL rejects every statement until the rollback.
\<close>

record conn =
  tbl :: "item list"
  seq :: int
  failed :: bool

definition statement :: "(conn \<Rightarrow> 'a completion \<times> conn) \<Rightarrow> conn \<Rightarrow> 'a completion \<times> conn" where
  "statement q c =
     (if failed c then (Throws (Error ''current transaction is aborted''), c)
      else (case q c of
              (Throws e, c') \<Rightarrow> (Throws e, c'\<lparr>tbl := tbl c, failed := True\<rparr>)
            | (Returns v, c') \<Rightarrow> (Returns v, c')))"

text \<open>
  \<^verbatim>\<open>id\<close> is a four-byte integer, \<^verbatim>\<open>sku\<close> and \<^verbatim>\<open>mpn\<close> are \<^verbatim>\<open>varchar(255)\<close>
  (\<^verbatim>\<open>tb.string\<close>); \<^verbatim>\<open>description\<close> is \<^verbatim>\<open>text\<close>.
\<close>

definition int4 :: "int \<Rightarrow> bool" where
  "int4 i = (- 2147483648 \<le> i \<and> i \<le> 2147483647)"

definition varchar :: "string col \<Rightarrow> bool" where
  "varchar x = (case x of Val s \<Rightarrow> length s \<le> 255 | _ \<Rightarrow> True)"

definition nullable :: "'a col \<Rightarrow> 'a option" where
  "nullable x = (case x of Val v \<Rightarrow> Some v | _ \<Rightarrow> None)"

definition unique_keys :: "item list \<Rightarrow> bool" where
  "unique_keys rows = (distinct (map item_id rows) \<and> distinct (map sku rows))"

text \<open>\<^verbatim>\<open>select * from items\<close>\<close>

definition select_items :: "conn \<Rightarrow> item list completion \<times> conn" where
  "select_items c = (Returns (tbl c), c)"

text \<open>
  \<^verbatim>\<open>select * from items where id = ? limit 1\<close>: the row, or \<^verbatim>\<open>undefined\<close>. The value
  bound to \<^verbatim>\<open>?\<close> is read as a four-byte integer, here and in update and delete: one out of
  range fails the statement.
\<close>

definition select_first :: "int \<Rightarrow> conn \<Rightarrow> item option completion \<times> conn" where
  "select_first i c =
     (if \<not> int4 i then (Throws (Error ''out of range for type integer''), c)
      else (Returns (case filter (\<lambda>r. item_id r = i) (tbl c) of [] \<Rightarrow> None | r # _ \<Rightarrow> Some r), c))"

text \<open>
  \<^verbatim>\<open>insert into items (...) values (...) returning id\<close>. A column left out takes its
  default: the next value of the sequence for \<^verbatim>\<open>id\<close>, which stays consumed whatever
  happens to the statement or the transaction, and null for the others.
\<close>

definition insert_returning :: "props \<Rightarrow> conn \<Rightarrow> int list completion \<times> conn" where
  "insert_returning p c =
     (let c1 = (case p_id p of Absent \<Rightarrow> c\<lparr>seq := seq c + 1\<rparr> | _ \<Rightarrow> c) in
      case (case p_id p of Absent \<Rightarrow> Some (seq c) | Null \<Rightarrow> None | Val i \<Rightarrow> Some i) of
        None \<Rightarrow> (Throws (Error ''null value in column id''), c1)
      | Some i \<Rightarrow>
          (case nullable (p_sku p) of
             None \<Rightarrow> (Throws (Error ''null value in column sku''), c1)
           | Some s \<Rightarrow>
               (let r = \<lparr>item_id = i, sku = s, mpn = nullable (p_mpn p),
                          description = nullable (p_description p)\<rparr> in
                if \<not> int4 i then (Throws (Error ''out of range for type integer''), c1)
                else if \<not> (varchar (p_sku p) \<and> varchar (p_mpn p))
                then (Throws (Error ''value too long for type character varying(255)''), c1)
                else if unique_keys (tbl c1 @ [r])
                then (Returns [i], c1\<lparr>tbl := tbl c1 @ [r]\<rparr>)
                else (Throws (Error ''duplicate key value''), c1))))"

text \<open>
  \<^verbatim>\<open>update items set ... where id = ?\<close>, resolving to the number of rows changed. With
  no property to set, the statement knex sends is not valid SQL. A row that is updated
  is written anew: a later select without an order returns it after the rows that
  were not.
\<close>

definition assign :: "props \<Rightarrow> item \<Rightarrow> item option" where
  "assign p r =
     (if p_id p = Null \<or> p_sku p = Null then None
      else Some \<lparr>item_id = (case p_id p of Val i \<Rightarrow> i | _ \<Rightarrow> item_id r),
                 sku = (case p_sku p of Val s \<Rightarrow> s | _ \<Rightarrow> sku r),
                 mpn = (case p_mpn p of Absent \<Rightarrow> mpn r | x \<Rightarrow> nullable x),
                 description = (case p_description p of Absent \<Rightarrow> description r | x \<Rightarrow> nullable x)\<rparr>)"

definition update_where :: "int \<Rightarrow> props \<Rightarrow> conn \<Rightarrow> nat completion \<times> conn" where
  "update_where i p c =
     (if p_id p = Absent \<and> p_sku p = Absent \<and> p_mpn p = Absent \<and> p_description p = Absent
      then (Throws (Error ''syntax error''), c)
      else if \<not> int4 i \<or> (case p_id p of Val j \<Rightarrow> \<not> int4 j | _ \<Rightarrow> False)
      then (Throws (Error ''out of range for type integer''), c)
      else (let hit = filter (\<lambda>r. item_id r = i) (tbl c) in
            if hit \<noteq> [] \<and> (p_id p = Null \<or> p_sku p = Null)
            then (Throws (Error ''null value in column''), c)
            else if hit \<noteq> [] \<and> \<not> (varchar (p_sku p) \<and> varchar (p_mpn p))
            then (Throws (Error ''value too long for type character varying(255)''), c)
            else (let rows = filter (\<lambda>r. item_id r \<noteq> i) (tbl c) @
                             map (\<lambda>r. case assign p r of Some r' \<Rightarrow> r' | None \<Rightarrow> r) hit in
                  if unique_keys rows then (Returns (length hit), c\<lparr>tbl := rows\<rparr>)
                  else (Throws (Error ''duplicate key value''), c))))"

text \<open>\<^verbatim>\<open>delete from items where id = ? returning id\<close>: the ids of the rows deleted.\<close>

definition delete_returning :: "int \<Rightarrow> conn \<Rightarrow> int list completion \<times> conn" where
  "delete_returning i c =
     (if \<not> int4 i then (Throws (Error ''out of range for type integer''), c)
      else (Returns (map item_id (filter (\<lambda>r. item_id r = i) (tbl c))),
            c\<lparr>tbl := filter (\<lambda>r. item_id r \<noteq> i) (tbl c)\<rparr>))"

section \<open>The repository: items-data\<close>

text \<open>
  \<^verbatim>\<open>itemsData(db)\<close> with \<open>db\<close> a transaction, as everywhere in the suite. Each function
  is the awaited call: the state before, the completion and the state after.
\<close>

definition find :: "conn \<Rightarrow> item list completion \<times> conn" where
  "find c = statement select_items c"

definition findById :: "int \<Rightarrow> conn \<Rightarrow> item option completion \<times> conn" where
  "findById i c = statement (select_first i) c"

text \<open>
  \<^verbatim>\<open>const [ id ] = await db.insert(item).into('items').returning('id'); return findById(id)\<close>
\<close>

definition create :: "props \<Rightarrow> conn \<Rightarrow> item option completion \<times> conn" where
  "create item c =
     (case statement (insert_returning item) c of
        (Throws e, c') \<Rightarrow> (Throws e, c')
      | (Returns ids, c') \<Rightarrow>
          (case ids of
             [] \<Rightarrow> (Throws (Error ''undefined binding''), c')
           | i # _ \<Rightarrow> findById i c'))"

text \<open>\<^verbatim>\<open>await db.update(props).where({ id }).into('items'); return findById(id)\<close>\<close>

definition updateById :: "int \<Rightarrow> props \<Rightarrow> conn \<Rightarrow> item option completion \<times> conn" where
  "updateById i p c =
     (case statement (update_where i p) c of
        (Throws e, c') \<Rightarrow> (Throws e, c')
      | (Returns n, c') \<Rightarrow> findById i c')"

text \<open>
  \<^verbatim>\<open>const [ deleted ] = await db.delete().from('items').where({ id }).returning('id');
  return !!deleted\<close>: \<open>deleted\<close> is the first id returned, or \<^verbatim>\<open>undefined\<close>; \<^verbatim>\<open>!!\<close> of a
  number is false exactly for zero.
\<close>

definition deleteById :: "int \<Rightarrow> conn \<Rightarrow> bool completion \<times> conn" where
  "deleteById i c =
     (case statement (delete_returning i) c of
        (Throws e, c') \<Rightarrow> (Throws e, c')
      | (Returns ids, c') \<Rightarrow>
          (Returns (case ids of [] \<Rightarrow> False | deleted # _ \<Rightarrow> deleted \<noteq> 0), c'))"

section \<open>The database and the seed\<close>

text \<open>
  The database holds \<^verbatim>\<open>items\<close> with its identity sequence, and whatever other tables
  there are (those of knex's migration bookkeeping among them), each with its schema, its
  name, its rows and its identity sequence. A table also has what PostgreSQL reads its
  name as when a statement writes it without quotes: nothing when the name is a reserved
  word or no identifier (the statement is then in error), and otherwise the name folded
  to lower case, which is the name itself for a plain lower-case identifier such as
  \<^verbatim>\<open>items\<close>.
\<close>

record 'r pg_table =
  schemaname :: string
  tablename :: string
  contents :: "'r list"
  identity :: int
  unquoted :: "string option"

record 'r database =
  items :: "item list"
  items_id_seq :: int
  others :: "'r pg_table list"

definition pg_tables :: "'r database \<Rightarrow> (string \<times> string) list" where
  "pg_tables d = (''public'', ''items'') # map (\<lambda>t. (schemaname t, tablename t)) (others d)"

definition reads :: "'r database \<Rightarrow> string \<Rightarrow> string option" where
  "reads d n =
     (if n = ''items'' then Some ''items''
      else (case List.find (\<lambda>t. tablename t = n) (others d) of
              None \<Rightarrow> None
            | Some t \<Rightarrow> unquoted t))"

definition public_names :: "'r database \<Rightarrow> string list" where
  "public_names d = ''items'' # map tablename (filter (\<lambda>t. schemaname t = ''public'') (others d))"

text \<open>\<^verbatim>\<open>name like '%pat%'\<close>, for a pattern without wildcards of its own.\<close>

fun contains :: "string \<Rightarrow> string \<Rightarrow> bool" where
  "contains pat [] = (pat = [])"
| "contains pat (c # cs) = (take (length pat) (c # cs) = pat \<or> contains pat cs)"

text \<open>
  \<^verbatim>\<open>truncate table ${tables} restart identity\<close>, the names joined by commas as they are,
  without quotes. The statement fails, and truncates nothing, when one of them does not
  read as a name or reads as the name of no table of \<^verbatim>\<open>public\<close>; otherwise it empties
  the tables of \<^verbatim>\<open>public\<close> the names read as, and restarts their sequences.
\<close>

definition truncate_restart :: "string list \<Rightarrow> 'r database \<Rightarrow> unit completion \<times> 'r database" where
  "truncate_restart tables d =
     (if list_ex (\<lambda>n. reads d n = None) tables then (Throws (Error ''syntax error''), d)
      else (let targets = concat (map (\<lambda>n. case reads d n of None \<Rightarrow> [] | Some m \<Rightarrow> [m]) tables) in
            if list_ex (\<lambda>m. m \<notin> set (public_names d)) targets
            then (Throws (Error ''relation does not exist''), d)
            else (Returns (),
                  d\<lparr>items := (if ''items'' \<in> set targets then [] else items d),
                    items_id_seq := (if ''items'' \<in> set targets then 1 else items_id_seq d),
                    others := map (\<lambda>t. if schemaname t = ''public'' \<and> tablename t \<in> set targets
                                        then t\<lparr>contents := [], identity := 1\<rparr> else t) (others d)\<rparr>)))"

text \<open>An insert of several rows is one statement: the first row that fails ends it.\<close>

fun insert_many :: "props list \<Rightarrow> conn \<Rightarrow> int list completion \<times> conn" where
  "insert_many [] c = (Returns [], c)"
| "insert_many (p # ps) c =
     (case insert_returning p c of
        (Throws e, c') \<Rightarrow> (Throws e, c')
      | (Returns i, c') \<Rightarrow>
          (case insert_many ps c' of
             (Throws e, c'') \<Rightarrow> (Throws e, c'')
           | (Returns js, c'') \<Rightarrow> (Returns (i @ js), c'')))"

definition seed_rows :: "props list" where
  "seed_rows =
     [\<lparr>p_id = Absent, p_sku = Val ''hammer'', p_mpn = Absent, p_description = Val ''A Claw Hammer''\<rparr>,
      \<lparr>p_id = Absent, p_sku = Val ''drill'', p_mpn = Absent, p_description = Val ''A Power Drill''\<rparr>,
      \<lparr>p_id = Absent, p_sku = Val ''toolbelt'', p_mpn = Absent, p_description = Val ''A Useful Belt''\<rparr>]"

text \<open>
  \<^verbatim>\<open>seeds/dev/index.js\<close>: the names of the tables of \<^verbatim>\<open>public\<close> that are not like
  \<^verbatim>\<open>%migrations%\<close>, aggregated (null when there is none); truncate them; insert the
  three rows. Each statement runs on the pool and is committed on its own; the first
  that fails ends the seed.
\<close>

definition selected_tables :: "'r database \<Rightarrow> string list" where
  "selected_tables d =
     map snd (filter (\<lambda>(s, n). s = ''public'' \<and> \<not> contains ''migrations'' n) (pg_tables d))"

definition seed :: "'r database \<Rightarrow> unit completion \<times> 'r database" where
  "seed knex =
     (let tables = selected_tables knex in
      if tables = [] then (Throws (Error ''relation null does not exist''), knex)
      else (case truncate_restart tables knex of
              (Throws e, d) \<Rightarrow> (Throws e, d)
            | (Returns u, d) \<Rightarrow>
                (case insert_many seed_rows \<lparr>tbl = items d, seq = items_id_seq d, failed = False\<rparr> of
                   (Throws e, c) \<Rightarrow> (Throws e, d\<lparr>items_id_seq := seq c\<rparr>)
                 | (Returns ids, c) \<Rightarrow> (Returns (), d\<lparr>items := tbl c, items_id_seq := seq c\<rparr>))))"

section \<open>The world of a test run\<close>

text \<open>
  An open transaction: its handle, its view of \<^verbatim>\<open>items\<close>, and whether a statement
  of it has failed.
\<close>

record txn =
  txid :: nat
  work :: "item list"
  aborted :: bool

text \<open>
  What happens when a transaction is requested: no connection is to be had (the pool is
  exhausted, the server cannot be reached); or a connection is handed out and
  \<^verbatim>\<open>BEGIN\<close> fails on it; or the transaction begins. In the last two cases there is a
  handle.
\<close>

datatype start = StartFails jsval | BeginFails nat jsval | Starts nat

datatype event =
    SeedRun | BeforeFailed jsval
  | TxRequested | Begin nat | SetupCalled nat | DoneSignaled
  | BodyStarted | Commit nat | Rollback nat | AfterEachFailed jsval

text \<open>
  The state a run goes through: the variables the hooks close over, the committed
  database, the open transaction (tests run one after the other: there is one at most),
  the promise \<^verbatim>\<open>db.transaction\<close> last returned, the answers the pool will give to the
  coming requests (none left: the request hangs), whether \<^verbatim>\<open>done\<close> was called in
  the running hook, and what happened so far.
\<close>

record ('c, 'r) world =
  vars :: 'c
  db :: "'r database"
  tx :: "txn option"
  lifetime :: "jsval promise"
  pool :: "start list"
  done_called :: bool
  trace :: "event list"

definition settle_with :: "'v settle \<Rightarrow> 'v promise \<Rightarrow> 'v promise" where
  "settle_with s p = (if state p = Pending then p\<lparr>state := s\<rparr> else p)"

section \<open>knex transactions\<close>

text \<open>
  \<^verbatim>\<open>trx.commit(v)\<close> makes the transaction's view the table (PostgreSQL answers the
  commit of a failed transaction with a rollback, and no error) and fulfills the promise;
  \<^verbatim>\<open>trx.rollback(e)\<close> drops the view and rejects the promise with \<open>e\<close>. On a handle
  whose transaction is over, neither changes anything.
\<close>

definition trx_commit :: "nat \<Rightarrow> jsval \<Rightarrow> ('c, 'r) world \<Rightarrow> ('c, 'r) world" where
  "trx_commit h v w =
     (case tx w of
        None \<Rightarrow> w
      | Some t \<Rightarrow>
          if txid t \<noteq> h then w
          else w\<lparr>db := (db w)\<lparr>items := (if aborted t then items (db w) else work t)\<rparr>,
                 tx := None,
                 lifetime := settle_with (Fulfilled v) (lifetime w),
                 trace := trace w @ [Commit h]\<rparr>)"

definition trx_rollback :: "nat \<Rightarrow> jsval \<Rightarrow> ('c, 'r) world \<Rightarrow> ('c, 'r) world" where
  "trx_rollback h e w =
     (case tx w of
        None \<Rightarrow> w
      | Some t \<Rightarrow>
          if txid t \<noteq> h then w
          else w\<lparr>tx := None,
                 lifetime := settle_with (Rejected e) (lifetime w),
                 trace := trace w @ [Rollback h]\<rparr>)"

text \<open>
  \<^verbatim>\<open>db.transaction(container)\<close> returns a new pending promise and asks the pool for a
  connection. If there is none the promise is rejected and the container is never
  called. If \<^verbatim>\<open>BEGIN\<close> fails on the connection the promise is rejected as well, and the
  container is called all the same, with the handle of a transaction that is over.
  Otherwise the transaction begins and the container is called with its handle. An
  error the container throws rolls the transaction back; a thenable it returns commits
  when it fulfills and rolls back when it rejects; after any other value the transaction
  stays open until \<^verbatim>\<open>trx.commit\<close> or \<^verbatim>\<open>trx.rollback\<close>. The container's result is
  \<open>None\<close> for a value that is no thenable, and the state a thenable ends in.
\<close>

definition contained ::
  "(nat \<Rightarrow> ('c, 'r) world \<Rightarrow> jsval settle option completion \<times> ('c, 'r) world) \<Rightarrow>
   nat \<Rightarrow> ('c, 'r) world \<Rightarrow> ('c, 'r) world" where
  "contained container h w =
     (case container h w of
        (Throws x, w1) \<Rightarrow> trx_rollback h x w1
      | (Returns (Some (Fulfilled v)), w1) \<Rightarrow> trx_commit h v w1
      | (Returns (Some (Rejected x)), w1) \<Rightarrow> trx_rollback h x w1
      | (Returns _, w1) \<Rightarrow> w1)"

definition db_transaction ::
  "(nat \<Rightarrow> ('c, 'r) world \<Rightarrow> jsval settle option completion \<times> ('c, 'r) world) \<Rightarrow>
   ('c, 'r) world \<Rightarrow> ('c, 'r) world" where
  "db_transaction container w =
     (let w0 = w\<lparr>lifetime := \<lparr>state = Pending, handlers = []\<rparr>, trace := trace w @ [TxRequested]\<rparr> in
      case pool w0 of
        [] \<Rightarrow> w0
      | StartFails e # answers \<Rightarrow>
          w0\<lparr>pool := answers, lifetime := settle_with (Rejected e) (lifetime w0)\<rparr>
      | BeginFails h e # answers \<Rightarrow>
          contained container h
            (w0\<lparr>pool := answers, lifetime := settle_with (Rejected e) (lifetime w0)\<rparr>)
      | Starts h # answers \<Rightarrow>
          contained container h
            (w0\<lparr>pool := answers,
                tx := Some \<lparr>txid = h, work = items (db w0), aborted = False\<rparr>,
                trace := trace w0 @ [Begin h]\<rparr>))"

section \<open>The harness: begin\<close>

text \<open>
  \<^verbatim>\<open>const begin = setup => done => { rejected(db.transaction(trx => { setup(trx); done() })) }\<close>

  The hook \<^verbatim>\<open>begin(setup)\<close> is \<open>begin_hook setup\<close>. \<open>setup\<close> works on the variables it
  closes over and returns or throws; \<open>done\<close> is the runner's callback. The container
  has a block body: it returns \<^verbatim>\<open>undefined\<close>. The hook drops the promise \<open>rejected\<close>
  returns, and returns \<^verbatim>\<open>undefined\<close> itself. \<^verbatim>\<open>db.transaction\<close> returns its promise, and
  \<open>rejected\<close> attaches its handler, before the pool answers; the model takes the hook
  and the answer as one step and looks at the promise after it, when it carries the
  handler in either order. The values of the harness's promises are errors and
  \<^verbatim>\<open>undefined\<close>: resolving with one fulfills.
\<close>

definition begin_hook ::
  "(nat \<Rightarrow> 'c \<Rightarrow> unit completion \<times> 'c) \<Rightarrow> (('c, 'r) world \<Rightarrow> ('c, 'r) world) \<Rightarrow>
   ('c, 'r) world \<Rightarrow> unit completion \<times> ('c, 'r) world" where
  "begin_hook setup done w =
     (let w' = db_transaction
                 (\<lambda>trx w1.
                    case setup trx (vars w1) of
                      (Throws x, c) \<Rightarrow>
                        (Throws x, w1\<lparr>vars := c, trace := trace w1 @ [SetupCalled trx]\<rparr>)
                    | (Returns u, c) \<Rightarrow>
                        (Returns None, done (w1\<lparr>vars := c, trace := trace w1 @ [SetupCalled trx]\<rparr>)))
                 w
      in (Returns (), w'\<lparr>lifetime := fst (rejected Fulfilled (lifetime w'))\<rparr>))"

section \<open>The mocha runner\<close>

datatype hook_outcome = HookPassed | HookFailed jsval | HookTimedOut

definition mocha_done :: "('c, 'r) world \<Rightarrow> ('c, 'r) world" where
  "mocha_done w = w\<lparr>done_called := True, trace := trace w @ [DoneSignaled]\<rparr>"

text \<open>
  A hook that takes \<^verbatim>\<open>done\<close> fails with what it throws, passes once \<^verbatim>\<open>done()\<close> has been
  called, and is failed by the timeout when it never is.
\<close>

definition run_hook ::
  "((('c, 'r) world \<Rightarrow> ('c, 'r) world) \<Rightarrow> ('c, 'r) world \<Rightarrow> unit completion \<times> ('c, 'r) world) \<Rightarrow>
   ('c, 'r) world \<Rightarrow> hook_outcome \<times> ('c, 'r) world" where
  "run_hook hook w =
     (case hook mocha_done (w\<lparr>done_called := False\<rparr>) of
        (Throws e, w') \<Rightarrow> (HookFailed e, w')
      | (Returns u, w') \<Rightarrow> (if done_called w' then HookPassed else HookTimedOut, w'))"

section \<open>The suite\<close>

text \<open>
  The test file closes over \<^verbatim>\<open>let trx\<close> and \<^verbatim>\<open>let items\<close>; \<open>items\<close> is the repository
  \<^verbatim>\<open>itemsData(trx)\<close>, known by the handle it is bound to.
\<close>

record suite_vars =
  trx_var :: "nat option"
  items_var :: "nat option"

text \<open>\<^verbatim>\<open>_trx => { trx = _trx; items = itemsData(trx) }\<close>\<close>

definition suite_setup :: "nat \<Rightarrow> suite_vars \<Rightarrow> unit completion \<times> suite_vars" where
  "suite_setup t v = (Returns (), v\<lparr>trx_var := Some t, items_var := Some t\<rparr>)"

text \<open>\<^verbatim>\<open>afterEach(() => trx.rollback())\<close>\<close>

definition afterEach :: "(suite_vars, 'r) world \<Rightarrow> unit completion \<times> (suite_vars, 'r) world" where
  "afterEach w =
     (case trx_var (vars w) of
        None \<Rightarrow> (Throws (Error ''TypeError''), w)
      | Some h \<Rightarrow> (Returns (), trx_rollback h Undefined w))"

text \<open>A call of the repository and what it resolves to.\<close>

datatype call = Find | FindById int | Create props | UpdateById int props | DeleteById int

datatype result = Rows "item list" | Row "item option" | Bool bool

definition resolving :: "('a \<Rightarrow> result) \<Rightarrow> 'a completion \<times> conn \<Rightarrow> result completion \<times> conn" where
  "resolving f rc = (case rc of (Throws e, c) \<Rightarrow> (Throws e, c) | (Returns v, c) \<Rightarrow> (Returns (f v), c))"

fun exec :: "call \<Rightarrow> conn \<Rightarrow> result completion \<times> conn" where
  "exec Find c = resolving Rows (find c)"
| "exec (FindById i) c = resolving Row (findById i c)"
| "exec (Create p) c = resolving Row (create p c)"
| "exec (UpdateById i p) c = resolving Row (updateById i p c)"
| "exec (DeleteById i) c = resolving Bool (deleteById i c)"

text \<open>
  A query through a handle runs in that handle's transaction: on its view of the table
  and on the sequence, which belongs to no transaction. Once the transaction is over the
  handle rejects every query.
\<close>

definition on_handle ::
  "nat \<Rightarrow> (conn \<Rightarrow> 'a completion \<times> conn) \<Rightarrow> ('c, 'r) world \<Rightarrow> 'a completion \<times> ('c, 'r) world" where
  "on_handle h q w =
     (case tx w of
        None \<Rightarrow> (Throws (Error ''Transaction query already complete''), w)
      | Some t \<Rightarrow>
          if txid t \<noteq> h then (Throws (Error ''Transaction query already complete''), w)
          else (case q \<lparr>tbl = work t, seq = items_id_seq (db w), failed = aborted t\<rparr> of
                  (r, c) \<Rightarrow>
                    (r, w\<lparr>tx := Some (t\<lparr>work := tbl c, aborted := failed c\<rparr>),
                          db := (db w)\<lparr>items_id_seq := seq c\<rparr>\<rparr>)))"

text \<open>
  A test body awaits calls of \<open>items\<close> one after the other; the first that rejects
  ends it (and fails the test).
\<close>

fun run_body ::
  "call list \<Rightarrow> (suite_vars, 'r) world \<Rightarrow> result completion list \<times> (suite_vars, 'r) world" where
  "run_body [] w = ([], w)"
| "run_body (c # cs) w =
     (case items_var (vars w) of
        None \<Rightarrow> ([Throws (Error ''TypeError'')], w)
      | Some h \<Rightarrow>
          (case on_handle h (exec c) w of
             (Throws e, w') \<Rightarrow> ([Throws e], w')
           | (Returns r, w') \<Rightarrow>
               (case run_body cs w' of (rs, w'') \<Rightarrow> (Returns r # rs, w''))))"

datatype outcome = Ran "result completion list" | NotRun hook_outcome

text \<open>
  One test under \<^verbatim>\<open>beforeEach(begin(setup))\<close> and \<^verbatim>\<open>afterEach\<close>: the runner starts the body
  once the hook has passed, and runs the after-each hook whether or not it did.
\<close>

definition after_each :: "(suite_vars, 'r) world \<Rightarrow> (suite_vars, 'r) world" where
  "after_each w =
     (case afterEach w of
        (Throws e, w') \<Rightarrow> w'\<lparr>trace := trace w' @ [AfterEachFailed e]\<rparr>
      | (Returns u, w') \<Rightarrow> w')"

definition run_test :: "call list \<Rightarrow> (suite_vars, 'r) world \<Rightarrow> outcome \<times> (suite_vars, 'r) world" where
  "run_test body w =
     (case run_hook (begin_hook suite_setup) w of
        (HookPassed, w1) \<Rightarrow>
          (case run_body body (w1\<lparr>trace := trace w1 @ [BodyStarted]\<rparr>) of
             (rs, w2) \<Rightarrow> (Ran rs, after_each w2))
      | (failure, w1) \<Rightarrow> (NotRun failure, after_each w1))"

text \<open>The tests run in order; after a before-each hook failed, no further test of the suite runs.\<close>

fun run_tests ::
  "call list list \<Rightarrow> (suite_vars, 'r) world \<Rightarrow> outcome list \<times> (suite_vars, 'r) world" where
  "run_tests [] w = ([], w)"
| "run_tests (t # ts) w =
     (case run_test t w of
        (NotRun f, w') \<Rightarrow> ([NotRun f], w')
      | (Ran rs, w') \<Rightarrow> (case run_tests ts w' of (os, w'') \<Rightarrow> (Ran rs # os, w'')))"

text \<open>\<^verbatim>\<open>before(() => db.seed.run())\<close>, then the tests.\<close>

definition run_suite ::
  "call list list \<Rightarrow> (suite_vars, 'r) world \<Rightarrow> outcome list \<times> (suite_vars, 'r) world" where
  "run_suite tests w =
     (case seed (db w) of
        (Throws e, d) \<Rightarrow> ([], w\<lparr>db := d, trace := trace w @ [SeedRun, BeforeFailed e]\<rparr>)
      | (Returns u, d) \<Rightarrow> run_tests tests (w\<lparr>db := d, trace := trace w @ [SeedRun]\<rparr>))"

text \<open>The rows the seed leaves in \<^verbatim>\<open>items\<close>.\<close>

definition baseline :: "item list" where
  "baseline =
     [\<lparr>item_id = 1, sku = ''hammer'', mpn = None, description = Some ''A Claw Hammer''\<rparr>,
      \<lparr>item_id = 2, sku = ''drill'', mpn = None, description = Some ''A Power Drill''\<rparr>,
      \<lparr>item_id = 3, sku = ''toolbelt'', mpn = None, description = Some ''A Useful Belt''\<rparr>]"

text \<open>Handles of the transactions an event begins, rolls back, commits.\<close>

fun begun :: "event \<Rightarrow> nat list" where
  "begun (Begin h) = [h]"
| "begun e = []"

fun rolled_back :: "event \<Rightarrow> nat list" where
  "rolled_back (Rollback h) = [h]"
| "rolled_back e = []"

fun committed :: "event \<Rightarrow> nat list" where
  "committed (Commit h) = [h]"
| "committed e = []"

text \<open>A call that takes an id from the sequence: a create that gives none.\<close>

fun draws :: "call \<Rightarrow> bool" where
  "draws (Create p) = (p_id p = Absent)"
| "draws c = False"

section \<open>Example runs\<close>

text \<open>
  A database after the migration, not yet seeded, with knex's two bookkeeping tables
  and one more table; a pool that starts three transactions; and some inputs.
\<close>

definition example_db :: "unit database" where
  "example_db =
     \<lparr>items = [\<lparr>item_id = 9, sku = ''old'', mpn = None, description = None\<rparr>],
      items_id_seq = 10,
      others =
        [\<lparr>schemaname = ''public'', tablename = ''knex_migrations'', contents = [()], identity = 2,
          unquoted = Some ''knex_migrations''\<rparr>,
         \<lparr>schemaname = ''public'', tablename = ''knex_migrations_lock'', contents = [()], identity = 1,
          unquoted = Some ''knex_migrations_lock''\<rparr>,
         \<lparr>schemaname = ''public'', tablename = ''bundles'', contents = [(), ()], identity = 3,
          unquoted = Some ''bundles''\<rparr>]\<rparr>"

text \<open>The same with a table of emigrations, and with a table named by a reserved word.\<close>

definition emigrations_db :: "unit database" where
  "emigrations_db =
     example_db\<lparr>others := others example_db @
        [\<lparr>schemaname = ''public'', tablename = ''emigrations'', contents = [(), ()], identity = 3,
          unquoted = Some ''emigrations''\<rparr>]\<rparr>"

definition order_db :: "unit database" where
  "order_db =
     example_db\<lparr>others := others example_db @
        [\<lparr>schemaname = ''public'', tablename = ''order'', contents = [()], identity = 2,
          unquoted = None\<rparr>]\<rparr>"

definition example_world :: "(suite_vars, unit) world" where
  "example_world =
     \<lparr>vars = \<lparr>trx_var = None, items_var = None\<rparr>,
      db = example_db,
      tx = None,
      lifetime = \<lparr>state = Pending, handlers = []\<rparr>,
      pool = [Starts 1, Starts 2, Starts 3],
      done_called = False,
      trace = []\<rparr>"

definition seeded_world :: "(suite_vars, unit) world" where
  "seeded_world = example_world\<lparr>db := snd (seed example_db)\<rparr>"

definition exhausted_world :: "(suite_vars, unit) world" where
  "exhausted_world = seeded_world\<lparr>pool := [StartFails (Error ''pool exhausted'')]\<rparr>"

definition begin_failing_world :: "(suite_vars, unit) world" where
  "begin_failing_world = seeded_world\<lparr>pool := [BeginFails 1 (Error ''begin failed'')]\<rparr>"

definition saw :: props where
  "saw = \<lparr>p_id = Absent, p_sku = Val ''saw'', p_mpn = Absent, p_description = Val ''A Nice Saw''\<rparr>"

definition zero :: props where
  "zero = \<lparr>p_id = Val 0, p_sku = Val ''zero'', p_mpn = Absent, p_description = Absent\<rparr>"

definition best_seller :: props where
  "best_seller = \<lparr>p_id = Absent, p_sku = Absent, p_mpn = Absent, p_description = Val ''Our best seller!''\<rparr>"

text \<open>A setup that assigns the handle and then throws.\<close>

definition failing_setup :: "nat \<Rightarrow> suite_vars \<Rightarrow> unit completion \<times> suite_vars" where
  "failing_setup t v = (Throws (Error ''boom''), v\<lparr>trx_var := Some t\<rparr>)"

section \<open>Properties\<close>

subsection \<open>Promises\<close>

lemma rejected_state:
  "state (snd (rejected resolve p)) =
     (case state p of Pending \<Rightarrow> Pending | Fulfilled v \<Rightarrow> resolve v | Rejected e \<Rightarrow> resolve e)"
  by (cases "state p") (simp_all add: rejected_def catch_def)

text \<open>
  C10 (amended): for every promise \<open>p\<close> that is pending, or fulfilled or rejected with
  a value that is not a thenable (a promise resolved with it fulfills with it), the
  promise \<open>rejected p\<close> returns never rejects: it fulfills with \<open>v\<close> when \<open>p\<close>
  fulfills with \<open>v\<close>, fulfills with \<open>e\<close> when \<open>p\<close> rejects with \<open>e\<close>, and stays pending
  while \<open>p\<close> is pending. (A reason that is a thenable is adopted: the counterexample
  below is a promise rejected with a thenable that rejects.)
\<close>

theorem rejected_never_rejects:
  assumes "state p = Pending \<or> ((state p = Fulfilled v \<or> state p = Rejected v) \<and> resolve v = Fulfilled v)"
  shows "state (snd (rejected resolve p)) =
     (case state p of Pending \<Rightarrow> Pending | Fulfilled v \<Rightarrow> Fulfilled v | Rejected e \<Rightarrow> Fulfilled e)
   \<and> (\<forall>x. state (snd (rejected resolve p)) \<noteq> Rejected x)"
  using assms by (auto simp: rejected_state)

theorem rejected_never_rejects_witness:
  "state (snd (rejected Fulfilled \<lparr>state = Rejected (Error ''boom''), handlers = []\<rparr>))
     = Fulfilled (Error ''boom'')
   \<and> state (snd (rejected settles \<lparr>state = Fulfilled (Plain Undefined), handlers = []\<rparr>))
     = Fulfilled (Plain Undefined)"
proof -
  have a: "state \<lparr>state = Rejected (Error ''boom''), handlers = []\<rparr> = Pending
      \<or> ((state \<lparr>state = Rejected (Error ''boom''), handlers = []\<rparr> = Fulfilled (Error ''boom'')
          \<or> state \<lparr>state = Rejected (Error ''boom''), handlers = []\<rparr> = Rejected (Error ''boom''))
         \<and> Fulfilled (Error ''boom'') = Fulfilled (Error ''boom''))"
    by simp
  have b: "state \<lparr>state = Fulfilled (Plain Undefined), handlers = []\<rparr> = Pending
      \<or> ((state \<lparr>state = Fulfilled (Plain Undefined), handlers = []\<rparr> = Fulfilled (Plain Undefined)
          \<or> state \<lparr>state = Fulfilled (Plain Undefined), handlers = []\<rparr> = Rejected (Plain Undefined))
         \<and> settles (Plain Undefined) = Fulfilled (Plain Undefined))"
    by simp
  from rejected_never_rejects[of "\<lparr>state = Rejected (Error ''boom''), handlers = []\<rparr>"
        "Error ''boom''" Fulfilled, OF a]
      rejected_never_rejects[of "\<lparr>state = Fulfilled (Plain Undefined), handlers = []\<rparr>"
        "Plain Undefined" settles, OF b]
  show ?thesis by simp
qed

theorem rejected_thenable_counterexample:
  "state (snd (rejected settles \<lparr>state = Rejected (Thenable (Rejected (Error ''boom''))), handlers = []\<rparr>))
     = Rejected (Plain (Error ''boom''))"
  by (simp add: rejected_def catch_def)

subsection \<open>The seed, the hook and a test, step by step\<close>

lemma contains_items: "\<not> contains ''migrations'' ''items''"
  by simp

lemma insert_seed_rows:
  "insert_many seed_rows \<lparr>tbl = [], seq = 1, failed = False\<rparr> =
     (Returns [1, 2, 3], \<lparr>tbl = baseline, seq = 4, failed = False\<rparr>)"
  by (simp add: seed_rows_def baseline_def insert_returning_def nullable_def unique_keys_def
      int4_def varchar_def)

lemma items_selected: "''items'' \<in> set (selected_tables d)"
  by (simp add: selected_tables_def pg_tables_def)

lemma selected_nonempty: "selected_tables d \<noteq> []"
  by (simp add: selected_tables_def pg_tables_def)

lemma reads_items: "reads d ''items'' = Some ''items''"
  by (simp add: reads_def)

lemma truncate_throws:
  assumes "fst (truncate_restart tables d) = Throws e"
  shows "snd (truncate_restart tables d) = d"
  using assms by (simp add: truncate_restart_def Let_def split: if_splits)

lemma truncate_returns_items:
  assumes "fst (truncate_restart tables d) = Returns u" and "''items'' \<in> set tables"
  shows "items (snd (truncate_restart tables d)) = [] \<and> items_id_seq (snd (truncate_restart tables d)) = 1"
proof -
  have "''items'' \<in> set (concat (map (\<lambda>n. case reads d n of None \<Rightarrow> [] | Some m \<Rightarrow> [m]) tables))"
    using assms(2) reads_items[of d] by (force simp: )
  then show ?thesis
    using assms(1) by (simp add: truncate_restart_def Let_def split: if_splits)
qed

lemma seed_cases:
  "(\<exists>e. seed d = (Throws e, d)) \<or>
   (fst (seed d) = Returns () \<and> items (snd (seed d)) = baseline \<and> items_id_seq (snd (seed d)) = 4)"
proof (cases "fst (truncate_restart (selected_tables d) d)")
  case (Throws e)
  with truncate_throws[OF Throws] have "truncate_restart (selected_tables d) d = (Throws e, d)"
    by (metis prod.collapse)
  then show ?thesis
    by (simp add: seed_def Let_def selected_nonempty)
next
  case (Returns u)
  obtain d1 where t: "truncate_restart (selected_tables d) d = (Returns u, d1)"
    using Returns by (metis prod.collapse)
  from truncate_returns_items[OF Returns items_selected] t
  have "items d1 = []" "items_id_seq d1 = 1" by simp_all
  then show ?thesis
    using t by (simp add: seed_def Let_def selected_nonempty insert_seed_rows)
qed

lemma seed_throws_unchanged:
  assumes "fst (seed d) = Throws e"
  shows "seed d = (Throws e, d)"
  using assms seed_cases[of d] by auto

lemma seed_returns_baseline:
  assumes "fst (seed d) = Returns u"
  shows "items (snd (seed d)) = baseline \<and> items_id_seq (snd (seed d)) = 4"
  using assms seed_cases[of d] by auto

lemma selected_public:
  assumes "n \<in> set (selected_tables d)"
  shows "n \<in> set (public_names d)"
  using assms by (auto simp: selected_tables_def pg_tables_def public_names_def)

lemma seed_plain:
  assumes "list_all (\<lambda>n. reads d n = Some n) (selected_tables d)"
  shows "seed d = (Returns (),
     d\<lparr>items := baseline, items_id_seq := 4,
       others := map (\<lambda>t. if schemaname t = ''public'' \<and> \<not> contains ''migrations'' (tablename t)
                           then t\<lparr>contents := [], identity := 1\<rparr> else t) (others d)\<rparr>)"
proof -
  let ?tables = "selected_tables d"
  let ?targets = "concat (map (\<lambda>n. case reads d n of None \<Rightarrow> [] | Some m \<Rightarrow> [m]) ?tables)"
  have rd: "\<And>n. n \<in> set ?tables \<Longrightarrow> reads d n = Some n"
    using assms by (simp add: list_all_iff)
  have m: "map (\<lambda>n. case reads d n of None \<Rightarrow> [] | Some m \<Rightarrow> [m]) ?tables = map (\<lambda>n. [n]) ?tables"
    by (rule map_cong) (simp_all add: rd)
  have targets: "?targets = ?tables" unfolding m by simp
  have no_err: "\<not> list_ex (\<lambda>n. reads d n = None) ?tables"
    using rd by (auto simp: list_ex_iff)
  have exist: "\<not> list_ex (\<lambda>m. m \<notin> set (public_names d)) ?targets"
    unfolding targets using selected_public by (auto simp: list_ex_iff)
  have others_eq: "map (\<lambda>t. if schemaname t = ''public'' \<and> tablename t \<in> set ?tables
                           then t\<lparr>contents := [], identity := 1\<rparr> else t) (others d)
        = map (\<lambda>t. if schemaname t = ''public'' \<and> \<not> contains ''migrations'' (tablename t)
                           then t\<lparr>contents := [], identity := 1\<rparr> else t) (others d)"
  proof (rule map_cong[OF refl])
    fix t assume t: "t \<in> set (others d)"
    have "schemaname t = ''public'' \<Longrightarrow>
            (tablename t \<in> set ?tables) = (\<not> contains ''migrations'' (tablename t))"
    proof
      assume "tablename t \<in> set ?tables"
      then show "\<not> contains ''migrations'' (tablename t)"
        by (auto simp: selected_tables_def pg_tables_def)
    next
      assume "schemaname t = ''public''" and "\<not> contains ''migrations'' (tablename t)"
      with t have "(schemaname t, tablename t) \<in>
          set (filter (\<lambda>(s, n). s = ''public'' \<and> \<not> contains ''migrations'' n) (pg_tables d))"
        by (force simp: pg_tables_def)
      then have "snd (schemaname t, tablename t) \<in> snd `
          set (filter (\<lambda>(s, n). s = ''public'' \<and> \<not> contains ''migrations'' n) (pg_tables d))"
        by (rule imageI)
      then show "tablename t \<in> set ?tables"
        by (simp add: selected_tables_def)
    qed
    then show "(if schemaname t = ''public'' \<and> tablename t \<in> set ?tables
                then t\<lparr>contents := [], identity := 1\<rparr> else t)
             = (if schemaname t = ''public'' \<and> \<not> contains ''migrations'' (tablename t)
                then t\<lparr>contents := [], identity := 1\<rparr> else t)"
      by auto
  qed
  have tr: "truncate_restart ?tables d =
      (Returns (), d\<lparr>items := [], items_id_seq := 1,
          others := map (\<lambda>t. if schemaname t = ''public'' \<and> \<not> contains ''migrations'' (tablename t)
                           then t\<lparr>contents := [], identity := 1\<rparr> else t) (others d)\<rparr>)"
    using no_err exist others_eq items_selected[of d]
    by (simp add: truncate_restart_def Let_def targets)
  show ?thesis
    by (simp add: seed_def Let_def selected_nonempty tr insert_seed_rows)
qed

lemma on_handle_fields:
  assumes "on_handle h q w = (r, w')"
  shows "vars w' = vars w \<and> trace w' = trace w \<and> lifetime w' = lifetime w \<and> pool w' = pool w
       \<and> done_called w' = done_called w
       \<and> items (db w') = items (db w) \<and> others (db w') = others (db w)
       \<and> map_option txid (tx w') = map_option txid (tx w)"
  using assms by (auto simp: on_handle_def split: option.splits if_splits prod.splits)

lemma run_body_fields:
  "run_body b w = (rs, w') \<Longrightarrow>
     vars w' = vars w \<and> trace w' = trace w \<and> lifetime w' = lifetime w \<and> pool w' = pool w
       \<and> done_called w' = done_called w
       \<and> items (db w') = items (db w) \<and> others (db w') = others (db w)
       \<and> map_option txid (tx w') = map_option txid (tx w)"
proof (induction b arbitrary: w rs w')
  case Nil
  then show ?case by simp
next
  case (Cons c cs)
  show ?case
  proof (cases "items_var (vars w)")
    case None
    with Cons.prems show ?thesis by simp
  next
    case (Some h)
    obtain r w1 where oh: "on_handle h (exec c) w = (r, w1)" by (cases "on_handle h (exec c) w")
    note f1 = on_handle_fields[OF oh]
    show ?thesis
    proof (cases r)
      case (Throws e)
      with Cons.prems Some oh f1 show ?thesis by simp
    next
      case (Returns v)
      obtain rs2 w2 where rb: "run_body cs w1 = (rs2, w2)" by (cases "run_body cs w1")
      from Cons.IH[OF rb] f1 Cons.prems Some oh Returns rb show ?thesis by simp
    qed
  qed
qed

lemmas hook_defs = run_hook_def begin_hook_def db_transaction_def contained_def mocha_done_def rejected_def
  catch_def settle_with_def trx_rollback_def trx_commit_def Let_def

lemma hook_starts:
  assumes "pool w = Starts h # answers" and "setup h (vars w) = (Returns u, c)"
  shows "run_hook (begin_hook setup) w =
     (HookPassed,
      w\<lparr>vars := c, tx := Some \<lparr>txid = h, work = items (db w), aborted = False\<rparr>,
        lifetime := \<lparr>state = Pending, handlers = [\<lambda>err. Returns err]\<rparr>,
        pool := answers, done_called := True,
        trace := trace w @ [TxRequested, Begin h, SetupCalled h, DoneSignaled]\<rparr>)"
  using assms by (simp add: hook_defs)

lemma hook_throws:
  assumes "pool w = Starts h # answers" and "setup h (vars w) = (Throws x, c)"
  shows "run_hook (begin_hook setup) w =
     (HookTimedOut,
      w\<lparr>vars := c, tx := None,
        lifetime := \<lparr>state = Rejected x, handlers = [\<lambda>err. Returns err]\<rparr>,
        pool := answers, done_called := False,
        trace := trace w @ [TxRequested, Begin h, SetupCalled h, Rollback h]\<rparr>)"
  using assms by (simp add: hook_defs)

lemma hook_start_fails:
  assumes "pool w = StartFails e # answers"
  shows "run_hook (begin_hook setup) w =
     (HookTimedOut,
      w\<lparr>lifetime := \<lparr>state = Rejected e, handlers = [\<lambda>err. Returns err]\<rparr>,
        pool := answers, done_called := False,
        trace := trace w @ [TxRequested]\<rparr>)"
  using assms by (simp add: hook_defs)

lemma hook_hangs:
  assumes "pool w = []"
  shows "run_hook (begin_hook setup) w =
     (HookTimedOut,
      w\<lparr>lifetime := \<lparr>state = Pending, handlers = [\<lambda>err. Returns err]\<rparr>,
        done_called := False,
        trace := trace w @ [TxRequested]\<rparr>)"
  using assms by (simp add: hook_defs)

lemma hook_begin_fails:
  assumes "pool w = BeginFails h e # answers" and "setup h (vars w) = (Returns u, c)"
  shows "run_hook (begin_hook setup) w =
     (HookPassed,
      w\<lparr>vars := c,
        lifetime := \<lparr>state = Rejected e, handlers = [\<lambda>err. Returns err]\<rparr>,
        pool := answers, done_called := True,
        trace := trace w @ [TxRequested, SetupCalled h, DoneSignaled]\<rparr>)"
  using assms by (simp add: hook_defs)

lemma run_test_starts:
  assumes "pool w = Starts h # answers"
  shows "run_test body w =
     (case run_body body
             (w\<lparr>vars := (vars w)\<lparr>trx_var := Some h, items_var := Some h\<rparr>,
                tx := Some \<lparr>txid = h, work = items (db w), aborted = False\<rparr>,
                lifetime := \<lparr>state = Pending, handlers = [\<lambda>err. Returns err]\<rparr>,
                pool := answers, done_called := True,
                trace := trace w @ [TxRequested, Begin h, SetupCalled h, DoneSignaled, BodyStarted]\<rparr>) of
        (rs, w2) \<Rightarrow>
          (Ran rs,
           w2\<lparr>tx := None,
              lifetime := \<lparr>state = Rejected Undefined, handlers = [\<lambda>err. Returns err]\<rparr>,
              trace := trace w @ [TxRequested, Begin h, SetupCalled h, DoneSignaled, BodyStarted,
                                  Rollback h]\<rparr>))"
proof -
  let ?wb = "w\<lparr>vars := (vars w)\<lparr>trx_var := Some h, items_var := Some h\<rparr>,
                tx := Some \<lparr>txid = h, work = items (db w), aborted = False\<rparr>,
                lifetime := \<lparr>state = Pending, handlers = [\<lambda>err. Returns err]\<rparr>,
                pool := answers, done_called := True,
                trace := trace w @ [TxRequested, Begin h, SetupCalled h, DoneSignaled, BodyStarted]\<rparr>"
  obtain rs w2 where rb: "run_body body ?wb = (rs, w2)" by (cases "run_body body ?wb")
  from run_body_fields[OF rb]
  have f: "vars w2 = (vars w)\<lparr>trx_var := Some h, items_var := Some h\<rparr>"
          "trace w2 = trace w @ [TxRequested, Begin h, SetupCalled h, DoneSignaled, BodyStarted]"
          "lifetime w2 = \<lparr>state = Pending, handlers = [\<lambda>err. Returns err]\<rparr>"
          "map_option txid (tx w2) = Some h"
    by simp_all
  from f(4) obtain t where t: "tx w2 = Some t" "txid t = h" by auto
  have ae: "after_each w2 = w2\<lparr>tx := None,
              lifetime := \<lparr>state = Rejected Undefined, handlers = [\<lambda>err. Returns err]\<rparr>,
              trace := trace w @ [TxRequested, Begin h, SetupCalled h, DoneSignaled, BodyStarted,
                                  Rollback h]\<rparr>"
    using f t by (simp add: after_each_def afterEach_def trx_rollback_def settle_with_def)
  have hk: "run_hook (begin_hook suite_setup) w =
     (HookPassed,
      w\<lparr>vars := (vars w)\<lparr>trx_var := Some h, items_var := Some h\<rparr>,
        tx := Some \<lparr>txid = h, work = items (db w), aborted = False\<rparr>,
        lifetime := \<lparr>state = Pending, handlers = [\<lambda>err. Returns err]\<rparr>,
        pool := answers, done_called := True,
        trace := trace w @ [TxRequested, Begin h, SetupCalled h, DoneSignaled]\<rparr>)"
    by (rule hook_starts[OF assms]) (simp add: suite_setup_def)
  show ?thesis
    using rb ae by (simp add: run_test_def hk)
qed

lemma after_each_idle:
  assumes "tx w = None"
  shows "after_each w =
     (case trx_var (vars w) of
        None \<Rightarrow> w\<lparr>trace := trace w @ [AfterEachFailed (Error ''TypeError'')]\<rparr>
      | Some h \<Rightarrow> w)"
  using assms by (simp add: after_each_def afterEach_def trx_rollback_def split: option.splits)

lemma run_test_start_fails:
  assumes "pool w = StartFails e # answers" and "tx w = None"
  shows "run_test body w =
     (NotRun HookTimedOut,
      w\<lparr>lifetime := \<lparr>state = Rejected e, handlers = [\<lambda>err. Returns err]\<rparr>,
        pool := answers, done_called := False,
        trace := trace w @ TxRequested #
          (case trx_var (vars w) of None \<Rightarrow> [AfterEachFailed (Error ''TypeError'')] | Some h \<Rightarrow> [])\<rparr>)"
  using assms
  by (simp add: run_test_def hook_start_fails after_each_idle split: option.splits)

lemma run_test_hangs:
  assumes "pool w = []" and "tx w = None"
  shows "run_test body w =
     (NotRun HookTimedOut,
      w\<lparr>lifetime := \<lparr>state = Pending, handlers = [\<lambda>err. Returns err]\<rparr>,
        done_called := False,
        trace := trace w @ TxRequested #
          (case trx_var (vars w) of None \<Rightarrow> [AfterEachFailed (Error ''TypeError'')] | Some h \<Rightarrow> [])\<rparr>)"
  using assms
  by (simp add: run_test_def hook_hangs after_each_idle split: option.splits)

lemma run_test_begin_fails:
  assumes "pool w = BeginFails h e # answers" and "tx w = None"
  shows "run_test body w =
     (Ran (case body of [] \<Rightarrow> [] | c # cs \<Rightarrow> [Throws (Error ''Transaction query already complete'')]),
      w\<lparr>vars := (vars w)\<lparr>trx_var := Some h, items_var := Some h\<rparr>,
        lifetime := \<lparr>state = Rejected e, handlers = [\<lambda>err. Returns err]\<rparr>,
        pool := answers, done_called := True,
        trace := trace w @ [TxRequested, SetupCalled h, DoneSignaled, BodyStarted]\<rparr>)"
proof -
  have hk: "run_hook (begin_hook suite_setup) w =
     (HookPassed,
      w\<lparr>vars := (vars w)\<lparr>trx_var := Some h, items_var := Some h\<rparr>,
        lifetime := \<lparr>state = Rejected e, handlers = [\<lambda>err. Returns err]\<rparr>,
        pool := answers, done_called := True,
        trace := trace w @ [TxRequested, SetupCalled h, DoneSignaled]\<rparr>)"
    by (rule hook_begin_fails[OF assms(1)]) (simp add: suite_setup_def)
  show ?thesis
    using assms(2)
    by (cases body)
       (simp_all add: run_test_def hk on_handle_def after_each_def afterEach_def trx_rollback_def)
qed

lemma run_test_effect:
  assumes "tx w = None"
  shows "\<exists>es. trace (snd (run_test body w)) = trace w @ es
           \<and> concat (map rolled_back es) = concat (map begun es)
           \<and> concat (map committed es) = []
           \<and> SeedRun \<notin> set es
           \<and> tx (snd (run_test body w)) = None
           \<and> items (db (snd (run_test body w))) = items (db w)"
proof (cases "pool w")
  case Nil
  show ?thesis
    by (simp add: run_test_hangs[OF Nil assms] assms split: option.splits)
next
  case (Cons a answers)
  show ?thesis
  proof (cases a)
    case (StartFails e)
    with Cons have p: "pool w = StartFails e # answers" by simp
    show ?thesis
      by (simp add: run_test_start_fails[OF p assms] assms split: option.splits)
  next
    case (BeginFails h e)
    with Cons have p: "pool w = BeginFails h e # answers" by simp
    show ?thesis
      by (simp add: run_test_begin_fails[OF p assms] assms)
  next
    case (Starts h)
    with Cons have p: "pool w = Starts h # answers" by simp
    obtain rs w2 where rb: "run_body body
             (w\<lparr>vars := (vars w)\<lparr>trx_var := Some h, items_var := Some h\<rparr>,
                tx := Some \<lparr>txid = h, work = items (db w), aborted = False\<rparr>,
                lifetime := \<lparr>state = Pending, handlers = [\<lambda>err. Returns err]\<rparr>,
                pool := answers, done_called := True,
                trace := trace w @ [TxRequested, Begin h, SetupCalled h, DoneSignaled, BodyStarted]\<rparr>)
           = (rs, w2)"
      by (cases "run_body body
             (w\<lparr>vars := (vars w)\<lparr>trx_var := Some h, items_var := Some h\<rparr>,
                tx := Some \<lparr>txid = h, work = items (db w), aborted = False\<rparr>,
                lifetime := \<lparr>state = Pending, handlers = [\<lambda>err. Returns err]\<rparr>,
                pool := answers, done_called := True,
                trace := trace w @ [TxRequested, Begin h, SetupCalled h, DoneSignaled, BodyStarted]\<rparr>)")
    from run_body_fields[OF rb] have "items (db w2) = items (db w)" by simp
    then show ?thesis
      by (simp add: run_test_starts[OF p] rb)
  qed
qed

lemma run_tests_effect:
  assumes "tx w = None"
  shows "\<exists>es. trace (snd (run_tests tests w)) = trace w @ es
           \<and> concat (map rolled_back es) = concat (map begun es)
           \<and> concat (map committed es) = []
           \<and> SeedRun \<notin> set es
           \<and> tx (snd (run_tests tests w)) = None
           \<and> items (db (snd (run_tests tests w))) = items (db w)"
  using assms
proof (induction tests arbitrary: w)
  case Nil
  then show ?case by simp
next
  case (Cons t ts)
  obtain o1 w1 where rt: "run_test t w = (o1, w1)" by (cases "run_test t w")
  from run_test_effect[OF Cons.prems, of t] rt
  obtain es1 where e1: "trace w1 = trace w @ es1"
      "concat (map rolled_back es1) = concat (map begun es1)"
      "concat (map committed es1) = []" "SeedRun \<notin> set es1" "tx w1 = None"
      "items (db w1) = items (db w)"
    by auto
  show ?case
  proof (cases o1)
    case (NotRun f)
    with rt e1 show ?thesis by simp
  next
    case (Ran rs)
    from Cons.IH[OF e1(5)]
    obtain es2 where e2: "trace (snd (run_tests ts w1)) = trace w1 @ es2"
      "concat (map rolled_back es2) = concat (map begun es2)"
      "concat (map committed es2) = []" "SeedRun \<notin> set es2" "tx (snd (run_tests ts w1)) = None"
      "items (db (snd (run_tests ts w1))) = items (db w1)"
      by auto
    have step: "snd (run_tests (t # ts) w) = snd (run_tests ts w1)"
      using rt Ran by (cases "run_tests ts w1") simp
    have "trace (snd (run_tests (t # ts) w)) = trace w @ (es1 @ es2)"
      unfolding step using e1 e2 by simp
    moreover have "tx (snd (run_tests (t # ts) w)) = None"
       "items (db (snd (run_tests (t # ts) w))) = items (db w)"
      unfolding step using e1 e2 by simp_all
    moreover have "concat (map rolled_back (es1 @ es2)) = concat (map begun (es1 @ es2))"
      "concat (map committed (es1 @ es2)) = []" "SeedRun \<notin> set (es1 @ es2)"
      using e1 e2 by simp_all
    ultimately show ?thesis by blast
  qed
qed

lemma after_each_trace:
  "\<exists>es. trace (after_each w) = trace w @ es \<and> SeedRun \<notin> set es"
  by (auto simp: after_each_def afterEach_def trx_rollback_def split: option.splits)

lemma run_tests_effect_seeded:
  assumes "tx w = None"
  shows "\<exists>es. trace (snd (run_suite tests w)) = trace w @ SeedRun # es
           \<and> concat (map rolled_back es) = concat (map begun es)
           \<and> concat (map committed es) = []
           \<and> SeedRun \<notin> set es
           \<and> tx (snd (run_suite tests w)) = None
           \<and> items (db (snd (run_suite tests w))) = items (snd (seed (db w)))"
proof (cases "fst (seed (db w))")
  case (Throws e)
  from seed_throws_unchanged[OF Throws]
  have "snd (run_suite tests w) = w\<lparr>db := db w, trace := trace w @ [SeedRun, BeforeFailed e]\<rparr>"
    by (simp add: run_suite_def)
  moreover have "snd (seed (db w)) = db w"
    using seed_throws_unchanged[OF Throws] by simp
  ultimately have "trace (snd (run_suite tests w)) = trace w @ SeedRun # [BeforeFailed e]
           \<and> concat (map rolled_back [BeforeFailed e]) = concat (map begun [BeforeFailed e])
           \<and> concat (map committed [BeforeFailed e]) = []
           \<and> SeedRun \<notin> set [BeforeFailed e]
           \<and> tx (snd (run_suite tests w)) = None
           \<and> items (db (snd (run_suite tests w))) = items (snd (seed (db w)))"
    using assms by simp
  then show ?thesis by blast
next
  case (Returns u)
  let ?w = "w\<lparr>db := snd (seed (db w)), trace := trace w @ [SeedRun]\<rparr>"
  have rs: "run_suite tests w = run_tests tests ?w"
    using Returns by (cases "seed (db w)") (simp add: run_suite_def)
  have "tx ?w = None" using assms by simp
  from run_tests_effect[OF this, of tests]
  show ?thesis
    unfolding rs by simp
qed

lemma hook_trace:
  "\<exists>es. trace (snd (run_hook (begin_hook suite_setup) w)) = trace w @ es \<and> SeedRun \<notin> set es"
  by (auto simp: hook_defs suite_setup_def split: list.splits start.splits option.splits)

lemma run_test_trace:
  "\<exists>es. trace (snd (run_test body w)) = trace w @ es \<and> SeedRun \<notin> set es"
proof -
  obtain ho w1 where rh: "run_hook (begin_hook suite_setup) w = (ho, w1)"
    by (cases "run_hook (begin_hook suite_setup) w")
  from hook_trace[of w] rh obtain es1 where e1: "trace w1 = trace w @ es1" "SeedRun \<notin> set es1"
    by auto
  obtain rs w2 where rb: "run_body body (w1\<lparr>trace := trace w1 @ [BodyStarted]\<rparr>) = (rs, w2)"
    by (cases "run_body body (w1\<lparr>trace := trace w1 @ [BodyStarted]\<rparr>)")
  from run_body_fields[OF rb] have e2: "trace w2 = trace w1 @ [BodyStarted]" by simp
  from after_each_trace[of w1] obtain esa where a1:
    "trace (after_each w1) = trace w1 @ esa" "SeedRun \<notin> set esa" by blast
  from after_each_trace[of w2] obtain esb where a2:
    "trace (after_each w2) = trace w2 @ esb" "SeedRun \<notin> set esb" by blast
  show ?thesis
  proof (cases ho)
    case HookPassed
    then have "trace (snd (run_test body w)) = trace w @ (es1 @ BodyStarted # esb)
        \<and> SeedRun \<notin> set (es1 @ BodyStarted # esb)"
      using rh rb e1 e2 a2 by (simp add: run_test_def)
    then show ?thesis by blast
  next
    case (HookFailed x)
    then have "trace (snd (run_test body w)) = trace w @ (es1 @ esa)
        \<and> SeedRun \<notin> set (es1 @ esa)"
      using rh e1 a1 by (simp add: run_test_def)
    then show ?thesis by blast
  next
    case HookTimedOut
    then have "trace (snd (run_test body w)) = trace w @ (es1 @ esa)
        \<and> SeedRun \<notin> set (es1 @ esa)"
      using rh e1 a1 by (simp add: run_test_def)
    then show ?thesis by blast
  qed
qed

lemma run_tests_trace:
  "\<exists>es. trace (snd (run_tests tests w)) = trace w @ es \<and> SeedRun \<notin> set es"
proof (induction tests arbitrary: w)
  case Nil
  then show ?case by simp
next
  case (Cons t ts)
  obtain o1 w1 where rt: "run_test t w = (o1, w1)" by (cases "run_test t w")
  from run_test_trace[of t w] rt
  obtain es1 where e1: "trace w1 = trace w @ es1" "SeedRun \<notin> set es1" by auto
  show ?case
  proof (cases o1)
    case (NotRun f)
    with rt e1 show ?thesis by simp
  next
    case (Ran rs)
    from Cons.IH[of w1]
    obtain es2 where e2: "trace (snd (run_tests ts w1)) = trace w1 @ es2" "SeedRun \<notin> set es2"
      by blast
    have step: "snd (run_tests (t # ts) w) = snd (run_tests ts w1)"
      using rt Ran by (cases "run_tests ts w1") simp
    have "trace (snd (run_tests (t # ts) w)) = trace w @ (es1 @ es2) \<and> SeedRun \<notin> set (es1 @ es2)"
      unfolding step using e1 e2 by simp
    then show ?thesis by blast
  qed
qed

lemma seed_fails_on_reserved_name:
  "seed order_db = (Throws (Error ''syntax error''), order_db)"
  by code_simp

text \<open>
  C8 (amended): on a database where the names of the tables of \<^verbatim>\<open>public\<close> that are not
  like \<^verbatim>\<open>%migrations%\<close> read, without quotes, as themselves, the seed empties every one of
  these tables and restarts its identity sequence, leaves every other table as it was
  (the tables of other schemas, and every table with \<^verbatim>\<open>migrations\<close> in its name, whether
  it tracks migrations or not), and leaves in \<^verbatim>\<open>items\<close> exactly three rows, with ids 1, 2,
  3 and skus hammer, drill, toolbelt. The suite runs it once, before anything else, and
  the tests run on the database it leaves. (The counterexample below is a table of
  emigrations, which the seed does not empty.)
\<close>

theorem seed_resets_to_baseline:
  assumes "list_all (\<lambda>n. reads (db w) n = Some n) (selected_tables (db w))"
  shows "seed (db w) =
     (Returns (),
      (db w)\<lparr>items := baseline, items_id_seq := 4,
        others := map (\<lambda>t. if schemaname t = ''public'' \<and> \<not> contains ''migrations'' (tablename t)
                            then t\<lparr>contents := [], identity := 1\<rparr> else t) (others (db w))\<rparr>)
   \<and> map item_id baseline = [1, 2, 3]
   \<and> map sku baseline = [''hammer'', ''drill'', ''toolbelt'']
   \<and> run_suite tests w =
       run_tests tests (w\<lparr>db := snd (seed (db w)), trace := trace w @ [SeedRun]\<rparr>)
   \<and> (\<exists>es. trace (snd (run_suite tests w)) = trace w @ SeedRun # es \<and> SeedRun \<notin> set es)"
proof -
  let ?w = "w\<lparr>db := snd (seed (db w)), trace := trace w @ [SeedRun]\<rparr>"
  have rs: "run_suite tests w = run_tests tests ?w"
    by (simp add: run_suite_def seed_plain[OF assms])
  from run_tests_trace[of tests ?w]
  have "\<exists>es. trace (snd (run_suite tests w)) = trace w @ SeedRun # es \<and> SeedRun \<notin> set es"
    unfolding rs by simp
  then show ?thesis
    using rs by (simp add: seed_plain[OF assms] baseline_def)
qed

theorem seed_resets_to_baseline_witness:
  "list_all (\<lambda>n. reads (db example_world) n = Some n) (selected_tables (db example_world))
   \<and> selected_tables (db example_world) = [''items'', ''bundles'']
   \<and> seed (db example_world) =
     (Returns (),
      \<lparr>items = baseline, items_id_seq = 4,
       others =
        [\<lparr>schemaname = ''public'', tablename = ''knex_migrations'', contents = [()], identity = 2,
          unquoted = Some ''knex_migrations''\<rparr>,
         \<lparr>schemaname = ''public'', tablename = ''knex_migrations_lock'', contents = [()], identity = 1,
          unquoted = Some ''knex_migrations_lock''\<rparr>,
         \<lparr>schemaname = ''public'', tablename = ''bundles'', contents = [], identity = 1,
          unquoted = Some ''bundles''\<rparr>]\<rparr>)"
proof -
  have h: "list_all (\<lambda>n. reads (db example_world) n = Some n) (selected_tables (db example_world))"
    by code_simp
  have s: "selected_tables (db example_world) = [''items'', ''bundles'']"
    by code_simp
  from seed_resets_to_baseline[OF h, of "[]"] h s
  show ?thesis
    by (simp add: example_world_def example_db_def)
qed

theorem seed_spares_emigrations_counterexample:
  "fst (seed emigrations_db) = Returns ()
   \<and> map (\<lambda>t. (tablename t, contents t)) (others (snd (seed emigrations_db))) =
       [(''knex_migrations'', [()]), (''knex_migrations_lock'', [()]), (''bundles'', []),
        (''emigrations'', [(), ()])]"
  by code_simp

text \<open>
  C6: in a run of the suite that starts with no transaction open, the transactions begun
  are, one for one and in order, the transactions rolled back; none is committed; and
  none is left open at the end.
\<close>

theorem scopes_rolled_back_never_committed:
  assumes "tx w = None"
  shows "\<exists>es. trace (snd (run_suite tests w)) = trace w @ es
           \<and> concat (map rolled_back es) = concat (map begun es)
           \<and> concat (map committed es) = []
           \<and> tx (snd (run_suite tests w)) = None"
proof -
  from run_tests_effect_seeded[OF assms, of tests]
  obtain es where "trace (snd (run_suite tests w)) = trace w @ SeedRun # es"
     "concat (map rolled_back es) = concat (map begun es)"
     "concat (map committed es) = []" "tx (snd (run_suite tests w)) = None"
    by blast
  then have "trace (snd (run_suite tests w)) = trace w @ (SeedRun # es)
           \<and> concat (map rolled_back (SeedRun # es)) = concat (map begun (SeedRun # es))
           \<and> concat (map committed (SeedRun # es)) = []
           \<and> tx (snd (run_suite tests w)) = None"
    by simp
  then show ?thesis by blast
qed

theorem scopes_rolled_back_never_committed_witness:
  "tx example_world = None
   \<and> (\<exists>es. trace (snd (run_suite [[Create saw], [DeleteById 1]] example_world)) = trace example_world @ es
           \<and> concat (map rolled_back es) = concat (map begun es)
           \<and> concat (map committed es) = []
           \<and> tx (snd (run_suite [[Create saw], [DeleteById 1]] example_world)) = None)
   \<and> concat (map begun (trace (snd (run_suite [[Create saw], [DeleteById 1]] example_world)))) = [1, 2]"
proof -
  have h: "tx example_world = None" by (simp add: example_world_def)
  have b: "concat (map begun (trace (snd (run_suite [[Create saw], [DeleteById 1]] example_world)))) = [1, 2]"
    by code_simp
  from scopes_rolled_back_never_committed[OF h, of "[[Create saw], [DeleteById 1]]"] h b
  show ?thesis by blast
qed

text \<open>
  C1: when the seed has succeeded, then whatever the tests of the suite do through their
  transaction handles, after the suite (any sequence of tests, so also any initial part
  of a longer one) the \<^verbatim>\<open>items\<close> table holds exactly the seeded rows, and a test that
  then opens its scope and queries the table finds exactly those rows.
\<close>

theorem rollback_keeps_baseline:
  assumes "tx w = None" and "fst (seed (db w)) = Returns ()"
  shows "items (db (snd (run_suite tests w))) = baseline
       \<and> (pool (snd (run_suite tests w)) = Starts h # answers \<longrightarrow>
            fst (run_test [Find] (snd (run_suite tests w))) = Ran [Returns (Rows baseline)])"
proof -
  let ?w = "snd (run_suite tests w)"
  from run_tests_effect_seeded[OF assms(1), of tests] seed_returns_baseline[OF assms(2)]
  have it: "items (db ?w) = baseline" and tx: "tx ?w = None" by auto
  have "fst (run_test [Find] ?w) = Ran [Returns (Rows baseline)]" if p: "pool ?w = Starts h # answers"
    by (simp add: run_test_starts[OF p] it on_handle_def find_def statement_def select_items_def
        resolving_def)
  with it show ?thesis by simp
qed

theorem rollback_keeps_baseline_witness:
  "tx example_world = None
   \<and> fst (seed (db example_world)) = Returns ()
   \<and> fst (run_suite [[Create saw, Find], [DeleteById 1, Find]] example_world) =
       [Ran [Returns (Row (Some \<lparr>item_id = 4, sku = ''saw'', mpn = None,
                                   description = Some ''A Nice Saw''\<rparr>)),
             Returns (Rows (baseline @ [\<lparr>item_id = 4, sku = ''saw'', mpn = None,
                                          description = Some ''A Nice Saw''\<rparr>]))],
        Ran [Returns (Bool True), Returns (Rows (tl baseline))]]
   \<and> items (db (snd (run_suite [[Create saw, Find], [DeleteById 1, Find]] example_world))) = baseline
   \<and> pool (snd (run_suite [[Create saw, Find], [DeleteById 1, Find]] example_world)) = Starts 3 # []
   \<and> fst (run_test [Find] (snd (run_suite [[Create saw, Find], [DeleteById 1, Find]] example_world)))
       = Ran [Returns (Rows baseline)]"
proof -
  have h: "tx example_world = None" by (simp add: example_world_def)
  have sd: "fst (seed (db example_world)) = Returns ()" by code_simp
  have r: "fst (run_suite [[Create saw, Find], [DeleteById 1, Find]] example_world) =
       [Ran [Returns (Row (Some \<lparr>item_id = 4, sku = ''saw'', mpn = None,
                                   description = Some ''A Nice Saw''\<rparr>)),
             Returns (Rows (baseline @ [\<lparr>item_id = 4, sku = ''saw'', mpn = None,
                                          description = Some ''A Nice Saw''\<rparr>]))],
        Ran [Returns (Bool True), Returns (Rows (tl baseline))]]"
    by code_simp
  have p: "pool (snd (run_suite [[Create saw, Find], [DeleteById 1, Find]] example_world)) = Starts 3 # []"
    by code_simp
  from rollback_keeps_baseline[OF h sd, of "[[Create saw, Find], [DeleteById 1, Find]]" 3 "[]"] h sd r p
  show ?thesis by simp
qed

text \<open>
  C2 (amended): when the transaction has begun and \<open>setup\<close>, called with its handle,
  returns, the hook then signals \<open>done\<close>, and passes, while the transaction's promise is
  still pending; in a test of the suite the body starts after that, and the rollback
  comes after the body. (When \<open>setup\<close> throws it has been called and \<open>done\<close> is not
  signalled: the counterexample below.)
\<close>

theorem setup_then_done_before_body:
  assumes "pool w = Starts h # answers" and "setup h (vars w) = (Returns u, c)"
    and "pool v = Starts g # later"
  shows "run_hook (begin_hook setup) w =
           (HookPassed,
            w\<lparr>vars := c, tx := Some \<lparr>txid = h, work = items (db w), aborted = False\<rparr>,
              lifetime := \<lparr>state = Pending, handlers = [\<lambda>err. Returns err]\<rparr>,
              pool := answers, done_called := True,
              trace := trace w @ [TxRequested, Begin h, SetupCalled h, DoneSignaled]\<rparr>)
       \<and> trace (snd (run_test body v)) =
           trace v @ [TxRequested, Begin g, SetupCalled g, DoneSignaled, BodyStarted, Rollback g]"
proof -
  have "trace (snd (run_test body v)) =
           trace v @ [TxRequested, Begin g, SetupCalled g, DoneSignaled, BodyStarted, Rollback g]"
    by (simp add: run_test_starts[OF assms(3)] split: prod.splits)
  with hook_starts[of w h answers "setup" u c, OF assms(1,2)] show ?thesis by simp
qed

theorem setup_then_done_before_body_witness:
  "pool seeded_world = Starts 1 # [Starts 2, Starts 3]
   \<and> suite_setup 1 (vars seeded_world) = (Returns (), \<lparr>trx_var = Some 1, items_var = Some 1\<rparr>)
   \<and> run_hook (begin_hook suite_setup) seeded_world =
           (HookPassed,
            seeded_world\<lparr>vars := \<lparr>trx_var = Some 1, items_var = Some 1\<rparr>,
              tx := Some \<lparr>txid = 1, work = items (db seeded_world), aborted = False\<rparr>,
              lifetime := \<lparr>state = Pending, handlers = [\<lambda>err. Returns err]\<rparr>,
              pool := [Starts 2, Starts 3], done_called := True,
              trace := trace seeded_world @ [TxRequested, Begin 1, SetupCalled 1, DoneSignaled]\<rparr>)
   \<and> trace (snd (run_test [DeleteById 1] seeded_world)) =
           trace seeded_world @ [TxRequested, Begin 1, SetupCalled 1, DoneSignaled, BodyStarted, Rollback 1]"
proof -
  have p: "pool seeded_world = Starts 1 # [Starts 2, Starts 3]"
    by (simp add: seeded_world_def example_world_def)
  have s: "suite_setup 1 (vars seeded_world) = (Returns (), \<lparr>trx_var = Some 1, items_var = Some 1\<rparr>)"
    by (simp add: suite_setup_def seeded_world_def example_world_def)
  from setup_then_done_before_body[of seeded_world 1 "[Starts 2, Starts 3]" suite_setup "()"
      "\<lparr>trx_var = Some 1, items_var = Some 1\<rparr>" seeded_world 1 "[Starts 2, Starts 3]" "[DeleteById 1]", OF p s p] p s
  show ?thesis by simp
qed

theorem done_not_signalled_counterexample:
  "trace (snd (run_hook (begin_hook failing_setup) seeded_world)) =
     trace seeded_world @ [TxRequested, Begin 1, SetupCalled 1, Rollback 1]
   \<and> DoneSignaled \<notin> set (trace (snd (run_hook (begin_hook failing_setup) seeded_world)))
   \<and> done_called (snd (run_hook (begin_hook failing_setup) seeded_world)) = False"
proof -
  have p: "pool seeded_world = Starts 1 # [Starts 2, Starts 3]"
    by (simp add: seeded_world_def example_world_def)
  have s: "failing_setup 1 (vars seeded_world) = (Throws (Error ''boom''), \<lparr>trx_var = Some 1, items_var = None\<rparr>)"
    by (simp add: failing_setup_def seeded_world_def example_world_def)
  have t: "trace seeded_world = []"
    by (simp add: seeded_world_def example_world_def)
  show ?thesis
    by (simp add: hook_throws[of seeded_world 1 "[Starts 2, Starts 3]" failing_setup "Error ''boom''"
      "\<lparr>trx_var = Some 1, items_var = None\<rparr>", OF p s] t)
qed

lemma contained_handlers:
  assumes "handlers (lifetime (snd (k h v))) = hs"
  shows "handlers (lifetime (contained k h v)) = hs"
  using assms
  by (auto simp: contained_def trx_rollback_def trx_commit_def settle_with_def
      split: prod.splits ended.splits option.splits settle.splits)

lemma db_transaction_handlers:
  assumes "\<And>h u. handlers (lifetime (snd (k h u))) = handlers (lifetime u)"
  shows "handlers (lifetime (db_transaction k w)) = []"
proof (cases "pool w")
  case Nil
  then show ?thesis by (simp add: db_transaction_def Let_def)
next
  case (Cons a answers)
  show ?thesis
  proof (cases a)
    case (StartFails e)
    with Cons show ?thesis by (simp add: db_transaction_def Let_def settle_with_def)
  next
    case (BeginFails h e)
    with Cons show ?thesis
      by (simp add: db_transaction_def Let_def contained_handlers assms settle_with_def)
  next
    case (Starts h)
    with Cons show ?thesis
      by (simp add: db_transaction_def Let_def contained_handlers assms)
  qed
qed

lemma hook_handlers:
  "handlers (lifetime (snd (run_hook (begin_hook setup) w))) = [\<lambda>err. Returns err]"
proof -
  let ?k = "\<lambda>trx w1. case setup trx (vars w1) of
                      (Throws x, c) \<Rightarrow>
                        (Throws x, w1\<lparr>vars := c, trace := trace w1 @ [SetupCalled trx]\<rparr>)
                    | (Returns u, c) \<Rightarrow>
                        (Returns None, mocha_done (w1\<lparr>vars := c, trace := trace w1 @ [SetupCalled trx]\<rparr>))"
  have "\<And>h u. handlers (lifetime (snd (?k h u))) = handlers (lifetime u)"
    by (auto simp: mocha_done_def split: prod.splits ended.splits)
  from db_transaction_handlers[of ?k, OF this]
  show ?thesis
    by (simp add: run_hook_def begin_hook_def Let_def rejected_def catch_def)
qed

lemma unhandled_swallow:
  assumes "handlers p = [\<lambda>err. Returns err]"
  shows "unhandled p = []"
  using assms by (cases "state p") (simp_all add: unhandled_def)

lemma hook_never_fails:
  "fst (run_hook (begin_hook setup) w) \<noteq> HookFailed e"
  by (simp add: run_hook_def begin_hook_def Let_def)

lemma after_each_handlers:
  "handlers (lifetime (after_each w)) = handlers (lifetime w)"
  by (simp add: after_each_def afterEach_def trx_rollback_def settle_with_def
      split: option.splits)

lemma run_test_handlers:
  "handlers (lifetime (snd (run_test body w))) = [\<lambda>err. Returns err]"
proof -
  obtain ho w1 where rh: "run_hook (begin_hook suite_setup) w = (ho, w1)"
    by (cases "run_hook (begin_hook suite_setup) w")
  from hook_handlers[of suite_setup w] rh
  have h1: "handlers (lifetime w1) = [\<lambda>err. Returns err]" by simp
  obtain rs w2 where rb: "run_body body (w1\<lparr>trace := trace w1 @ [BodyStarted]\<rparr>) = (rs, w2)"
    by (cases "run_body body (w1\<lparr>trace := trace w1 @ [BodyStarted]\<rparr>)")
  from run_body_fields[OF rb] have h2: "lifetime w2 = lifetime w1" by simp
  show ?thesis
    by (cases ho) (simp_all add: run_test_def rh rb after_each_handlers h1 h2)
qed

text \<open>
  C3: whatever the pool answers and whatever \<open>setup\<close> does, after the hook the
  transaction's promise carries the handler of \<open>rejected\<close>: no state it is in or is
  later settled with (a rollback's rejection among them) is reported as an unhandled
  rejection, the hook never fails with an error, and the same holds after a whole test
  of the suite, where the rollback of the after-each hook has rejected the promise.
  (Without the handler the rejection would be reported: the last line of the witness.)
\<close>

theorem lifecycle_rejections_swallowed:
  "unhandled (lifetime (snd (run_hook (begin_hook setup) w))) = []
   \<and> unhandled (settle_with s (lifetime (snd (run_hook (begin_hook setup) w)))) = []
   \<and> fst (run_hook (begin_hook setup) w) \<noteq> HookFailed e
   \<and> unhandled (lifetime (snd (run_test body v))) = []
   \<and> (pool v = Starts h # answers \<longrightarrow>
        state (lifetime (snd (run_test body v))) = Rejected Undefined)"
proof -
  have "handlers (settle_with s (lifetime (snd (run_hook (begin_hook setup) w)))) = [\<lambda>err. Returns err]"
    by (simp add: settle_with_def hook_handlers)
  moreover have "state (lifetime (snd (run_test body v))) = Rejected Undefined"
    if p: "pool v = Starts h # answers"
    by (simp add: run_test_starts[OF p] split: prod.splits)
  ultimately show ?thesis
    by (simp add: unhandled_swallow hook_handlers run_test_handlers hook_never_fails)
qed

theorem lifecycle_rejections_swallowed_witness:
  "pool seeded_world = Starts 1 # [Starts 2, Starts 3]
   \<and> state (lifetime (snd (run_test [DeleteById 1] seeded_world))) = Rejected Undefined
   \<and> unhandled (lifetime (snd (run_test [DeleteById 1] seeded_world))) = []
   \<and> unhandled \<lparr>state = Rejected Undefined, handlers = []\<rparr> = [Undefined]"
proof -
  have p: "pool seeded_world = Starts 1 # [Starts 2, Starts 3]"
    by (simp add: seeded_world_def example_world_def)
  have u: "unhandled \<lparr>state = Rejected Undefined, handlers = []\<rparr> = [Undefined]"
    by (simp add: unhandled_def)
  from lifecycle_rejections_swallowed[of suite_setup seeded_world Pending Undefined
      "[DeleteById 1]" seeded_world 1 "[Starts 2, Starts 3]"] p u
  show ?thesis by simp
qed

subsection \<open>The same test twice, failing hooks, and deleteById\<close>

lemma on_handle_open:
  assumes "tx w = Some t" and "txid t = h"
  shows "on_handle h q w =
     (fst (q \<lparr>tbl = work t, seq = items_id_seq (db w), failed = aborted t\<rparr>),
      w\<lparr>tx := Some (t\<lparr>work := tbl (snd (q \<lparr>tbl = work t, seq = items_id_seq (db w), failed = aborted t\<rparr>)),
                       aborted := failed (snd (q \<lparr>tbl = work t, seq = items_id_seq (db w), failed = aborted t\<rparr>))\<rparr>),
        db := (db w)\<lparr>items_id_seq := seq (snd (q \<lparr>tbl = work t, seq = items_id_seq (db w), failed = aborted t\<rparr>))\<rparr>\<rparr>)"
  using assms by (simp add: on_handle_def split: prod.splits)

lemma run_body_same_view:
  assumes "items_var (vars w) = Some h" and "tx w = Some t" and "txid t = h"
    and "items_var (vars v) = Some g" and "tx v = Some s" and "txid s = g"
    and "work t = work s" and "aborted t = aborted s"
    and "items_id_seq (db w) = items_id_seq (db v)"
  shows "fst (run_body body w) = fst (run_body body v)"
  using assms
proof (induction body arbitrary: w v t s)
  case Nil
  then show ?case by simp
next
  case (Cons c cs)
  let ?k = "\<lparr>tbl = work t, seq = items_id_seq (db w), failed = aborted t\<rparr>"
  have kv: "\<lparr>tbl = work s, seq = items_id_seq (db v), failed = aborted s\<rparr> = ?k"
    using Cons.prems by simp
  obtain r k' where ex: "exec c ?k = (r, k')" by (cases "exec c ?k")
  let ?w' = "w\<lparr>tx := Some (t\<lparr>work := tbl k', aborted := failed k'\<rparr>),
                db := (db w)\<lparr>items_id_seq := seq k'\<rparr>\<rparr>"
  let ?v' = "v\<lparr>tx := Some (s\<lparr>work := tbl k', aborted := failed k'\<rparr>),
                db := (db v)\<lparr>items_id_seq := seq k'\<rparr>\<rparr>"
  have ow: "on_handle h (exec c) w = (r, ?w')"
    using on_handle_open[OF Cons.prems(2,3), of "exec c"] ex by simp
  have ov: "on_handle g (exec c) v = (r, ?v')"
    using on_handle_open[OF Cons.prems(5,6), of "exec c"] ex kv by simp
  show ?case
  proof (cases r)
    case (Throws e)
    with ow ov Cons.prems show ?thesis by simp
  next
    case (Returns x)
    have "fst (run_body cs ?w') = fst (run_body cs ?v')"
      by (rule Cons.IH[where t="t\<lparr>work := tbl k', aborted := failed k'\<rparr>"
            and s="s\<lparr>work := tbl k', aborted := failed k'\<rparr>"])
         (use Cons.prems in simp_all)
    with ow ov Cons.prems Returns show ?thesis
      by (cases "run_body cs ?w'"; cases "run_body cs ?v'") simp
  qed
qed

lemma statement_seq:
  assumes "\<And>k. seq (snd (q k)) = seq k"
  shows "seq (snd (statement q c)) = seq c"
  using assms[of c] by (auto simp: statement_def split: prod.splits ended.splits)

lemma findById_seq: "seq (snd (findById i c)) = seq c"
  by (simp add: findById_def statement_seq select_first_def)

lemma exec_keeps_seq:
  assumes "\<not> draws c"
  shows "seq (snd (exec c k)) = seq k"
proof (cases c)
  case Find
  then show ?thesis
    using statement_seq[of select_items k]
    by (auto simp: resolving_def find_def select_items_def split: prod.splits ended.splits)
next
  case (FindById i)
  then show ?thesis
    using findById_seq[of i k]
    by (auto simp: resolving_def split: prod.splits ended.splits)
next
  case (Create p)
  with assms have np: "p_id p \<noteq> Absent" by simp
  have "\<And>k. seq (snd (insert_returning p k)) = seq k"
    using np by (cases "p_id p") (simp_all add: insert_returning_def Let_def split: option.splits)
  then have "seq (snd (statement (insert_returning p) k)) = seq k"
    by (rule statement_seq)
  then have "seq (snd (create p k)) = seq k"
    using findById_seq
    by (auto simp: create_def split: prod.splits ended.splits list.splits)
  with Create show ?thesis
    by (auto simp: resolving_def split: prod.splits ended.splits)
next
  case (UpdateById i p)
  have "\<And>k. seq (snd (update_where i p k)) = seq k"
    by (simp add: update_where_def Let_def)
  then have "seq (snd (statement (update_where i p) k)) = seq k"
    by (rule statement_seq)
  then have "seq (snd (updateById i p k)) = seq k"
    using findById_seq
    by (auto simp: updateById_def split: prod.splits ended.splits)
  with UpdateById show ?thesis
    by (auto simp: resolving_def split: prod.splits ended.splits)
next
  case (DeleteById i)
  have "\<And>k. seq (snd (delete_returning i k)) = seq k"
    by (simp add: delete_returning_def)
  then have "seq (snd (statement (delete_returning i) k)) = seq k"
    by (rule statement_seq)
  then have "seq (snd (deleteById i k)) = seq k"
    by (auto simp: deleteById_def split: prod.splits ended.splits)
  with DeleteById show ?thesis
    by (auto simp: resolving_def split: prod.splits ended.splits)
qed

lemma on_handle_keeps_seq:
  assumes "\<And>k. seq (snd (q k)) = seq k"
  shows "items_id_seq (db (snd (on_handle h q w))) = items_id_seq (db w)"
proof (cases "tx w")
  case None
  then show ?thesis by (simp add: on_handle_def)
next
  case (Some t)
  show ?thesis
    using Some assms[of "\<lparr>tbl = work t, seq = items_id_seq (db w), failed = aborted t\<rparr>"]
    by (auto simp: on_handle_def split: prod.splits)
qed

lemma run_body_keeps_seq:
  assumes "\<not> list_ex draws body"
  shows "items_id_seq (db (snd (run_body body w))) = items_id_seq (db w)"
  using assms
proof (induction body arbitrary: w)
  case Nil
  then show ?case by simp
next
  case (Cons c cs)
  then have nc: "\<not> draws c" and ncs: "\<not> list_ex draws cs" by simp_all
  show ?case
  proof (cases "items_var (vars w)")
    case None
    then show ?thesis by simp
  next
    case (Some h)
    obtain r w1 where oh: "on_handle h (exec c) w = (r, w1)" by (cases "on_handle h (exec c) w")
    have s1: "items_id_seq (db w1) = items_id_seq (db w)"
      using on_handle_keeps_seq[of "exec c" h w] exec_keeps_seq[OF nc] oh by simp
    show ?thesis
    proof (cases r)
      case (Throws e)
      with Some oh s1 show ?thesis by simp
    next
      case (Returns x)
      with Some oh s1 Cons.IH[OF ncs, of w1] show ?thesis
        by (cases "run_body cs w1") simp
    qed
  qed
qed

lemma run_test_keeps_items:
  "items (db (snd (run_test body w))) = items (db w)"
proof -
  obtain ho w1 where rh: "run_hook (begin_hook suite_setup) w = (ho, w1)"
    by (cases "run_hook (begin_hook suite_setup) w")
  have h1: "items (db w1) = items (db w)"
    using rh
    by (auto simp: hook_defs suite_setup_def split: list.splits start.splits if_splits option.splits)
  have ae: "\<And>u. items (db (after_each u)) = items (db u)"
    by (simp add: after_each_def afterEach_def trx_rollback_def split: option.splits)
  obtain rs w2 where rb: "run_body body (w1\<lparr>trace := trace w1 @ [BodyStarted]\<rparr>) = (rs, w2)"
    by (cases "run_body body (w1\<lparr>trace := trace w1 @ [BodyStarted]\<rparr>)")
  from run_body_fields[OF rb] have h2: "items (db w2) = items (db w1)" by simp
  show ?thesis
    by (cases ho) (simp_all add: run_test_def rh rb ae h1 h2)
qed

text \<open>
  C9 (amended): when the same test runs twice in a row, each time in a transaction that
  starts, both runs begin on the same rows of \<^verbatim>\<open>items\<close>; and when no call of the test is a
  create that leaves the id to the database, the first run leaves the whole database as
  it was and the second run has the results of the first. (An id the sequence has handed
  out is not handed out again after the rollback: the counterexample below creates the
  same row twice and gets id 4, then id 5.)
\<close>

theorem same_test_twice:
  assumes "pool w = Starts h # Starts g # answers" and "\<not> list_ex draws body"
  shows "items (db (snd (run_test anybody w))) = items (db w)
       \<and> db (snd (run_test body w)) = db w
       \<and> fst (run_test body (snd (run_test body w))) = fst (run_test body w)"
proof -
  let ?wb = "w\<lparr>vars := (vars w)\<lparr>trx_var := Some h, items_var := Some h\<rparr>,
                tx := Some \<lparr>txid = h, work = items (db w), aborted = False\<rparr>,
                lifetime := \<lparr>state = Pending, handlers = [\<lambda>err. Returns err]\<rparr>,
                pool := Starts g # answers, done_called := True,
                trace := trace w @ [TxRequested, Begin h, SetupCalled h, DoneSignaled, BodyStarted]\<rparr>"
  obtain rs w2 where rb: "run_body body ?wb = (rs, w2)" by (cases "run_body body ?wb")
  let ?w1 = "w2\<lparr>tx := None,
              lifetime := \<lparr>state = Rejected Undefined, handlers = [\<lambda>err. Returns err]\<rparr>,
              trace := trace w @ [TxRequested, Begin h, SetupCalled h, DoneSignaled, BodyStarted,
                                  Rollback h]\<rparr>"
  have rt1: "run_test body w = (Ran rs, ?w1)"
    by (simp add: run_test_starts[OF assms(1)] rb)
  from run_body_fields[OF rb]
  have f: "items (db w2) = items (db w)" "others (db w2) = others (db w)" "pool w2 = Starts g # answers"
    by simp_all
  have sq: "items_id_seq (db w2) = items_id_seq (db w)"
    using run_body_keeps_seq[OF assms(2), of ?wb] rb by simp
  have dbeq: "db w2 = db w"
    using f sq by (intro database.equality) simp_all
  have p1: "pool ?w1 = Starts g # answers" using f by simp
  let ?wc = "?w1\<lparr>vars := (vars ?w1)\<lparr>trx_var := Some g, items_var := Some g\<rparr>,
                tx := Some \<lparr>txid = g, work = items (db ?w1), aborted = False\<rparr>,
                lifetime := \<lparr>state = Pending, handlers = [\<lambda>err. Returns err]\<rparr>,
                pool := answers, done_called := True,
                trace := trace ?w1 @ [TxRequested, Begin g, SetupCalled g, DoneSignaled, BodyStarted]\<rparr>"
  have same: "fst (run_body body ?wc) = fst (run_body body ?wb)"
    by (rule run_body_same_view[where h=g and g=h
          and t="\<lparr>txid = g, work = items (db ?w1), aborted = False\<rparr>"
          and s="\<lparr>txid = h, work = items (db w), aborted = False\<rparr>"])
       (simp_all add: dbeq)
  have "fst (run_test body ?w1) = Ran (fst (run_body body ?wc))"
    by (simp add: run_test_starts[OF p1] split: prod.splits)
  then have "fst (run_test body ?w1) = Ran rs"
    using same rb by simp
  then show ?thesis
    using rt1 dbeq by (simp add: run_test_keeps_items)
qed

theorem same_test_twice_witness:
  "pool seeded_world = Starts 1 # Starts 2 # [Starts 3]
   \<and> \<not> list_ex draws [UpdateById 1 best_seller, DeleteById 2, Find]
   \<and> db (snd (run_test [UpdateById 1 best_seller, DeleteById 2, Find] seeded_world)) = db seeded_world
   \<and> fst (run_test [UpdateById 1 best_seller, DeleteById 2, Find]
            (snd (run_test [UpdateById 1 best_seller, DeleteById 2, Find] seeded_world)))
       = fst (run_test [UpdateById 1 best_seller, DeleteById 2, Find] seeded_world)
   \<and> fst (run_test [UpdateById 1 best_seller, DeleteById 2, Find] seeded_world)
       = Ran [Returns (Row (Some \<lparr>item_id = 1, sku = ''hammer'', mpn = None,
                                    description = Some ''Our best seller!''\<rparr>)),
              Returns (Bool True),
              Returns (Rows [\<lparr>item_id = 3, sku = ''toolbelt'', mpn = None,
                               description = Some ''A Useful Belt''\<rparr>,
                             \<lparr>item_id = 1, sku = ''hammer'', mpn = None,
                               description = Some ''Our best seller!''\<rparr>])]"
proof -
  have p: "pool seeded_world = Starts 1 # Starts 2 # [Starts 3]"
    by (simp add: seeded_world_def example_world_def)
  have d: "\<not> list_ex draws [UpdateById 1 best_seller, DeleteById 2, Find]"
    by simp
  have r: "fst (run_test [UpdateById 1 best_seller, DeleteById 2, Find] seeded_world)
       = Ran [Returns (Row (Some \<lparr>item_id = 1, sku = ''hammer'', mpn = None,
                                    description = Some ''Our best seller!''\<rparr>)),
              Returns (Bool True),
              Returns (Rows [\<lparr>item_id = 3, sku = ''toolbelt'', mpn = None,
                               description = Some ''A Useful Belt''\<rparr>,
                             \<lparr>item_id = 1, sku = ''hammer'', mpn = None,
                               description = Some ''Our best seller!''\<rparr>])]"
    by code_simp
  from same_test_twice[OF p d] p d r show ?thesis by simp
qed

theorem same_test_twice_counterexample:
  "fst (run_test [Create saw] seeded_world)
     = Ran [Returns (Row (Some \<lparr>item_id = 4, sku = ''saw'', mpn = None, description = Some ''A Nice Saw''\<rparr>))]
   \<and> fst (run_test [Create saw] (snd (run_test [Create saw] seeded_world)))
     = Ran [Returns (Row (Some \<lparr>item_id = 5, sku = ''saw'', mpn = None, description = Some ''A Nice Saw''\<rparr>))]
   \<and> fst (run_test [Create saw] (snd (run_test [Create saw] seeded_world)))
     \<noteq> fst (run_test [Create saw] seeded_world)"
  by code_simp




text \<open>
  C5 (amended): a failure to start the transaction is always discarded: nothing is
  reported as unhandled. When no connection is to be had, neither \<open>setup\<close> nor \<open>done\<close>
  is called: the state is otherwise as before the hook, which is failed by the runner's
  timeout, and the body of the test does not run. When a connection is handed out and
  \<^verbatim>\<open>BEGIN\<close> fails on it, \<open>setup\<close> is called and, when it returns, \<open>done\<close> is
  signalled: the hook passes, and the test fails at its first query, which the handle
  rejects. (The counterexample below is the hook on an exhausted pool.)
\<close>

theorem start_failure_discarded:
  "(pool w = StartFails e # answers \<longrightarrow>
      run_hook (begin_hook setup) w =
        (HookTimedOut,
         w\<lparr>lifetime := \<lparr>state = Rejected e, handlers = [\<lambda>err. Returns err]\<rparr>,
           pool := answers, done_called := False,
           trace := trace w @ [TxRequested]\<rparr>)
      \<and> unhandled (lifetime (snd (run_hook (begin_hook setup) w))) = [])
   \<and> (pool w = BeginFails h e # answers \<and> setup h (vars w) = (Returns u, c) \<longrightarrow>
      run_hook (begin_hook setup) w =
        (HookPassed,
         w\<lparr>vars := c,
           lifetime := \<lparr>state = Rejected e, handlers = [\<lambda>err. Returns err]\<rparr>,
           pool := answers, done_called := True,
           trace := trace w @ [TxRequested, SetupCalled h, DoneSignaled]\<rparr>)
      \<and> unhandled (lifetime (snd (run_hook (begin_hook setup) w))) = [])
   \<and> (pool v = StartFails e # later \<longrightarrow> fst (run_test body v) = NotRun HookTimedOut)
   \<and> (pool v = BeginFails g e # later \<and> tx v = None \<longrightarrow>
      fst (run_test (call # body) v) = Ran [Throws (Error ''Transaction query already complete'')])"
proof -
  have a: "fst (run_test body v) = NotRun HookTimedOut" if p: "pool v = StartFails e # later"
    by (simp add: run_test_def hook_start_fails[OF p])
  have b: "fst (run_test (call # body) v) = Ran [Throws (Error ''Transaction query already complete'')]"
    if p: "pool v = BeginFails g e # later" and t: "tx v = None"
    by (simp add: run_test_begin_fails[OF p t])
  have c: "run_hook (begin_hook setup) w =
        (HookPassed,
         w\<lparr>vars := c,
           lifetime := \<lparr>state = Rejected e, handlers = [\<lambda>err. Returns err]\<rparr>,
           pool := answers, done_called := True,
           trace := trace w @ [TxRequested, SetupCalled h, DoneSignaled]\<rparr>)"
    if p: "pool w = BeginFails h e # answers" and s: "setup h (vars w) = (Returns u, c)"
    using hook_begin_fails[of w h e answers "setup" u c, OF p s] .
  have d: "run_hook (begin_hook setup) w =
        (HookTimedOut,
         w\<lparr>lifetime := \<lparr>state = Rejected e, handlers = [\<lambda>err. Returns err]\<rparr>,
           pool := answers, done_called := False,
           trace := trace w @ [TxRequested]\<rparr>)"
    if p: "pool w = StartFails e # answers"
    by (rule hook_start_fails[OF p])
  have u: "unhandled (lifetime (snd (run_hook (begin_hook setup) w))) = []"
    by (simp add: unhandled_swallow hook_handlers)
  from a b c d u show ?thesis by blast
qed

theorem start_failure_discarded_witness:
  "pool exhausted_world = StartFails (Error ''pool exhausted'') # []
   \<and> run_hook (begin_hook suite_setup) exhausted_world =
           (HookTimedOut,
            exhausted_world\<lparr>lifetime := \<lparr>state = Rejected (Error ''pool exhausted''),
                                          handlers = [\<lambda>err. Returns err]\<rparr>,
              pool := [], done_called := False,
              trace := trace exhausted_world @ [TxRequested]\<rparr>)
   \<and> fst (run_test [Find] exhausted_world) = NotRun HookTimedOut
   \<and> pool begin_failing_world = BeginFails 1 (Error ''begin failed'') # []
   \<and> tx begin_failing_world = None
   \<and> suite_setup 1 (vars begin_failing_world) = (Returns (), \<lparr>trx_var = Some 1, items_var = Some 1\<rparr>)
   \<and> run_hook (begin_hook suite_setup) begin_failing_world =
           (HookPassed,
            begin_failing_world\<lparr>vars := \<lparr>trx_var = Some 1, items_var = Some 1\<rparr>,
              lifetime := \<lparr>state = Rejected (Error ''begin failed''),
                            handlers = [\<lambda>err. Returns err]\<rparr>,
              pool := [], done_called := True,
              trace := trace begin_failing_world @ [TxRequested, SetupCalled 1, DoneSignaled]\<rparr>)
   \<and> unhandled (lifetime (snd (run_hook (begin_hook suite_setup) begin_failing_world))) = []
   \<and> fst (run_test [Find, DeleteById 1] begin_failing_world)
       = Ran [Throws (Error ''Transaction query already complete'')]"
proof -
  have p: "pool exhausted_world = StartFails (Error ''pool exhausted'') # []"
    by (simp add: exhausted_world_def)
  have q: "pool begin_failing_world = BeginFails 1 (Error ''begin failed'') # []"
    by (simp add: begin_failing_world_def)
  have t: "tx begin_failing_world = None"
    by (simp add: begin_failing_world_def seeded_world_def example_world_def)
  have s: "suite_setup 1 (vars begin_failing_world) = (Returns (), \<lparr>trx_var = Some 1, items_var = Some 1\<rparr>)"
    by (simp add: suite_setup_def begin_failing_world_def seeded_world_def example_world_def)
  from start_failure_discarded[of exhausted_world "Error ''pool exhausted''" "[]" suite_setup
         0 "()" "\<lparr>trx_var = None, items_var = None\<rparr>" exhausted_world "[]" "[Find]" 0 Find]
       start_failure_discarded[of begin_failing_world "Error ''begin failed''" "[]" suite_setup
         1 "()" "\<lparr>trx_var = Some 1, items_var = Some 1\<rparr>" begin_failing_world "[]" "[DeleteById 1]" 1 Find]
       p q t s
  show ?thesis by (simp add: unhandled_def)
qed

theorem start_failure_counterexample:
  "fst (run_hook (begin_hook suite_setup) exhausted_world) = HookTimedOut
   \<and> done_called (snd (run_hook (begin_hook suite_setup) exhausted_world)) = False
   \<and> DoneSignaled \<notin> set (trace (snd (run_hook (begin_hook suite_setup) exhausted_world)))"
proof -
  have p: "pool exhausted_world = StartFails (Error ''pool exhausted'') # []"
    by (simp add: exhausted_world_def)
  have t: "trace exhausted_world = []"
    by (simp add: exhausted_world_def seeded_world_def example_world_def)
  show ?thesis
    by (simp add: hook_start_fails[OF p] t)
qed

lemma deleteById_nonzero:
  assumes "\<not> failed c" and "i \<noteq> 0" and "int4 i"
  shows "deleteById i c =
           (Returns (i \<in> item_id ` set (tbl c)), c\<lparr>tbl := filter (\<lambda>r. item_id r \<noteq> i) (tbl c)\<rparr>)"
proof -
  have "(case map item_id (filter (\<lambda>r. item_id r = i) (tbl c)) of [] \<Rightarrow> False | d # _ \<Rightarrow> d \<noteq> 0)
          = (i \<in> item_id ` set (tbl c))"
  proof (cases "filter (\<lambda>r. item_id r = i) (tbl c)")
    case Nil
    then have "\<forall>r \<in> set (tbl c). item_id r \<noteq> i" by (simp add: filter_empty_conv)
    with Nil show ?thesis by auto
  next
    case (Cons r rs)
    then have "r \<in> set (filter (\<lambda>r. item_id r = i) (tbl c))" by simp
    then have "r \<in> set (tbl c)" "item_id r = i" by simp_all
    with Cons assms show ?thesis by auto
  qed
  with assms show ?thesis
    by (simp add: deleteById_def statement_def delete_returning_def)
qed

lemma delete_then_find_next_test:
  "fst (run_suite [[DeleteById 1, FindById 1], [FindById 1]] example_world) =
     [Ran [Returns (Bool True), Returns (Row None)],
      Ran [Returns (Row (Some \<lparr>item_id = 1, sku = ''hammer'', mpn = None,
                               description = Some ''A Claw Hammer''\<rparr>))]]"
  by code_simp

text \<open>
  C7: for an id that is not 0 (and is a four-byte integer), and in a transaction no
  statement of which has failed, \<open>deleteById\<close> deletes the rows with that id and
  resolves to whether there was one
  (\<open>deleteById_nonzero\<close>), and a row deleted in one test is found again by the next
  (\<open>delete_then_find_next_test\<close>). For the id 0 the claim fails: with a row of id 0 in
  the table, as after \<^verbatim>\<open>create({ id: 0, sku: 'zero' })\<close>, \<open>deleteById 0\<close> deletes the
  row and resolves to false, because \<^verbatim>\<open>!!0\<close> is false.
\<close>

theorem deleteById_zero_id:
  "deleteById 0 \<lparr>tbl = [\<lparr>item_id = 0, sku = ''zero'', mpn = None, description = None\<rparr>],
                  seq = 1, failed = False\<rparr>
     = (Returns False, \<lparr>tbl = [], seq = 1, failed = False\<rparr>)
   \<and> fst (run_suite [[Create zero, DeleteById 0, FindById 0]] example_world) =
       [Ran [Returns (Row (Some \<lparr>item_id = 0, sku = ''zero'', mpn = None, description = None\<rparr>)),
             Returns (Bool False),
             Returns (Row None)]]"
proof -
  have a: "deleteById 0 \<lparr>tbl = [\<lparr>item_id = 0, sku = ''zero'', mpn = None, description = None\<rparr>],
                  seq = 1, failed = False\<rparr>
     = (Returns False, \<lparr>tbl = [], seq = 1, failed = False\<rparr>)"
    by (simp add: deleteById_def statement_def delete_returning_def int4_def)
  have b: "fst (run_suite [[Create zero, DeleteById 0, FindById 0]] example_world) =
       [Ran [Returns (Row (Some \<lparr>item_id = 0, sku = ''zero'', mpn = None, description = None\<rparr>)),
             Returns (Bool False),
             Returns (Row None)]]"
    by code_simp
  from a b show ?thesis by simp
qed

end
